theory Spec2Isabelle
  imports Complex_Main
begin

section \<open>Errors\<close>

text \<open>
  The exceptions the pile-up code raises or lets through.  Every function that can raise
  returns \<open>py_error + 'a\<close>, with \<open>Inl\<close> for the exception.
\<close>

datatype py_error = ValueError | IndexError | KeyError | AssertionError | TypeError
  | ZeroDivisionError | OtherError

definition bind_err :: "py_error + 'a \<Rightarrow> ('a \<Rightarrow> py_error + 'b) \<Rightarrow> py_error + 'b" where
  "bind_err r f = (case r of Inl e \<Rightarrow> Inl e | Inr x \<Rightarrow> f x)"

section \<open>Command-line validation of the rescale size\<close>

text \<open>
  \<^verbatim>\<open>if args.rescale and args.rescale_size%3!=0:
      raise ValueError("Please provide an odd rescale_size")\<close>
  Python's \<open>%\<close> with a positive divisor is \<open>mod\<close> on \<open>int\<close>.
\<close>

definition check_rescale_size :: "bool \<Rightarrow> int \<Rightarrow> py_error + unit" where
  "check_rescale_size rescale rescale_size =
     (if rescale \<and> rescale_size mod 3 \<noteq> 0 then Inl ValueError else Inr ())"

section \<open>Numbers and arrays\<close>

text \<open>
  A float64 entry of a map is a finite value, an infinity or NaN.  Finite values are exact
  rationals here: rounding, overflow and the sign of zero are not modelled, the special
  values and their arithmetic are (IEEE 754, as numpy applies it elementwise).
\<close>

datatype fval = Fin rat | PInf | NInf | NaN

fun fadd :: "fval \<Rightarrow> fval \<Rightarrow> fval" where
  "fadd NaN _ = NaN"
| "fadd _ NaN = NaN"
| "fadd PInf NInf = NaN"
| "fadd NInf PInf = NaN"
| "fadd PInf _ = PInf"
| "fadd _ PInf = PInf"
| "fadd NInf _ = NInf"
| "fadd _ NInf = NInf"
| "fadd (Fin a) (Fin b) = Fin (a + b)"

fun fmul :: "fval \<Rightarrow> fval \<Rightarrow> fval" where
  "fmul NaN _ = NaN"
| "fmul _ NaN = NaN"
| "fmul (Fin a) (Fin b) = Fin (a * b)"
| "fmul (Fin a) PInf = (if a = 0 then NaN else if 0 < a then PInf else NInf)"
| "fmul (Fin a) NInf = (if a = 0 then NaN else if 0 < a then NInf else PInf)"
| "fmul PInf (Fin b) = (if b = 0 then NaN else if 0 < b then PInf else NInf)"
| "fmul NInf (Fin b) = (if b = 0 then NaN else if 0 < b then NInf else PInf)"
| "fmul PInf PInf = PInf"
| "fmul NInf NInf = PInf"
| "fmul PInf NInf = NInf"
| "fmul NInf PInf = NInf"

text \<open>Division: \<open>0/0\<close> and \<open>inf/inf\<close> are NaN, \<open>x/0\<close> is an infinity for \<open>x \<noteq> 0\<close>.\<close>

fun fdiv :: "fval \<Rightarrow> fval \<Rightarrow> fval" where
  "fdiv NaN _ = NaN"
| "fdiv _ NaN = NaN"
| "fdiv (Fin a) (Fin b) =
     (if b = 0 then (if a = 0 then NaN else if 0 < a then PInf else NInf) else Fin (a / b))"
| "fdiv (Fin a) PInf = Fin 0"
| "fdiv (Fin a) NInf = Fin 0"
| "fdiv PInf (Fin b) = (if 0 \<le> b then PInf else NInf)"
| "fdiv NInf (Fin b) = (if 0 \<le> b then NInf else PInf)"
| "fdiv PInf PInf = NaN"
| "fdiv PInf NInf = NaN"
| "fdiv NInf PInf = NaN"
| "fdiv NInf NInf = NaN"

text \<open>The largest finite float64, which \<open>np.nan_to_num\<close> puts in place of an infinity.\<close>

definition float_max :: rat where
  "float_max = (2 ^ 53 - 1) * 2 ^ 971"

fun nan_to_num :: "fval \<Rightarrow> fval" where
  "nan_to_num NaN = Fin 0"
| "nan_to_num PInf = Fin float_max"
| "nan_to_num NInf = Fin (- float_max)"
| "nan_to_num (Fin a) = Fin a"

fun isnan :: "fval \<Rightarrow> bool" where
  "isnan NaN = True"
| "isnan _ = False"

text \<open>
  A two-dimensional array carries its shape: an array with no rows still has a number of
  columns, as \<open>np.zeros((0, 5))\<close> has.
\<close>

record 'a array2 =
  nrows :: nat
  ncols :: nat
  cells :: "'a list list"

definition shape :: "'a array2 \<Rightarrow> nat \<times> nat" where
  "shape A = (nrows A, ncols A)"

definition array_size :: "'a array2 \<Rightarrow> nat" where
  "array_size A = nrows A * ncols A"

definition map_array2 :: "('a \<Rightarrow> 'b) \<Rightarrow> 'a array2 \<Rightarrow> 'b array2" where
  "map_array2 f A = \<lparr>nrows = nrows A, ncols = ncols A, cells = map (map f) (cells A)\<rparr>"

text \<open>\<open>np.zeros\<close> raises ValueError on a negative dimension.\<close>

definition zeros1 :: "int \<Rightarrow> py_error + fval list" where
  "zeros1 k = (if k < 0 then Inl ValueError else Inr (replicate (nat k) (Fin 0)))"

definition zeros2 :: "int \<Rightarrow> int \<Rightarrow> py_error + fval array2" where
  "zeros2 h w =
     (if h < 0 \<or> w < 0 then Inl ValueError
      else Inr \<lparr>nrows = nat h, ncols = nat w,
                cells = replicate (nat h) (replicate (nat w) (Fin 0))\<rparr>)"

text \<open>
  Python slicing \<open>xs[lo:hi]\<close>: a negative bound counts from the end, every bound is
  clipped to the sequence, an empty range gives the empty sequence.
\<close>

definition slice_bound :: "nat \<Rightarrow> int \<Rightarrow> nat" where
  "slice_bound len i = (if i < 0 then nat (max 0 (int len + i)) else min len (nat i))"

definition py_slice :: "'a list \<Rightarrow> int \<Rightarrow> int \<Rightarrow> 'a list" where
  "py_slice xs lo hi =
     (let a = slice_bound (length xs) lo; b = slice_bound (length xs) hi
      in take (b - a) (drop a xs))"

text \<open>
  Broadcasting of an operand to the shape of the array updated in place: an axis of the
  operand must have the target's length or length one, else numpy raises ValueError.
\<close>

definition broadcast1 :: "nat \<Rightarrow> 'a list \<Rightarrow> py_error + 'a list" where
  "broadcast1 k xs =
     (if length xs = k then Inr xs
      else if length xs = 1 then Inr (replicate k (xs ! 0))
      else Inl ValueError)"

definition broadcast2 :: "nat \<Rightarrow> nat \<Rightarrow> 'a array2 \<Rightarrow> py_error + 'a array2" where
  "broadcast2 h w A =
     (if (nrows A = h \<or> nrows A = 1) \<and> (ncols A = w \<or> ncols A = 1)
      then Inr \<lparr>nrows = h, ncols = w,
                cells = map (\<lambda>i. map (\<lambda>j. cells A ! (if nrows A = 1 then 0 else i)
                                                  ! (if ncols A = 1 then 0 else j)) [0..<w])
                            [0..<h]\<rparr>
      else Inl ValueError)"

definition inplace1 :: "(fval \<Rightarrow> fval \<Rightarrow> fval) \<Rightarrow> fval list \<Rightarrow> fval list \<Rightarrow> py_error + fval list" where
  "inplace1 f xs ys = bind_err (broadcast1 (length xs) ys) (\<lambda>ys'. Inr (map2 f xs ys'))"

definition inplace2 :: "(fval \<Rightarrow> fval \<Rightarrow> fval) \<Rightarrow> fval array2 \<Rightarrow> fval array2 \<Rightarrow> py_error + fval array2" where
  "inplace2 f A B =
     bind_err (broadcast2 (nrows A) (ncols A) B)
       (\<lambda>B'. Inr \<lparr>nrows = nrows A, ncols = ncols A,
                  cells = map2 (map2 f) (cells A) (cells B')\<rparr>)"

text \<open>\<open>a + b\<close> on two vectors: either may be broadcast to the other.\<close>

definition add1 :: "fval list \<Rightarrow> fval list \<Rightarrow> py_error + fval list" where
  "add1 xs ys =
     (if length xs = length ys then Inr (map2 fadd xs ys)
      else if length ys = 1 then Inr (map (\<lambda>x. fadd x (ys ! 0)) xs)
      else if length xs = 1 then Inr (map (\<lambda>y. fadd (xs ! 0) y) ys)
      else Inl ValueError)"

section \<open>The expected matrix of a window\<close>

text \<open>
  \<open>np.pad(xs, (p, 0), mode='constant')\<close> puts \<open>p\<close> zeros in front.
  \<open>np.pad(xs, (p, 0), mode='reflect')\<close> mirrors the sequence about its first entry
  without repeating it, and again about the far end when \<open>p\<close> exceeds the length: the
  entry at offset \<open>k\<close> from the first one (negative in the padding) is the entry at
  \<open>reflect_index\<close>.  A one-entry sequence is repeated; an empty one cannot be extended.
\<close>

definition pad_constant_left :: "nat \<Rightarrow> fval list \<Rightarrow> fval list" where
  "pad_constant_left p xs = replicate p (Fin 0) @ xs"

definition reflect_index :: "nat \<Rightarrow> int \<Rightarrow> nat" where
  "reflect_index len k =
     (if len = 1 then 0
      else let period = 2 * (int len - 1); m = k mod period
           in nat (if m < int len then m else period - m))"

definition pad_reflect_left :: "nat \<Rightarrow> 'a list \<Rightarrow> py_error + 'a list" where
  "pad_reflect_left p xs =
     (if xs = [] then (if p = 0 then Inr [] else Inl ValueError)
      else Inr (map (\<lambda>k. xs ! reflect_index (length xs) (int k - int p)) [0..<p] @ xs))"

text \<open>
  \<open>scipy.linalg.toeplitz(c, r)\<close>: first column \<open>c\<close>, first row \<open>r\<close> (whose first entry
  is ignored), constant along each diagonal.
\<close>

definition toeplitz :: "'a list \<Rightarrow> 'a list \<Rightarrow> 'a array2" where
  "toeplitz c r =
     \<lparr>nrows = length c, ncols = length r,
      cells = map (\<lambda>a. map (\<lambda>b. if b \<le> a then c ! (a - b) else r ! (b - a)) [0..<length r])
                  [0..<length c]\<rparr>"

text \<open>
  \<open>exp_subset[i::-1]\<close> is the entries at \<open>i, i - 1, \<dots>, 0\<close> and \<open>exp_subset[i:]\<close> those
  from \<open>i\<close> on.
\<close>

definition toeplitz_about :: "'a list \<Rightarrow> 'a array2" where
  "toeplitz_about exp_subset =
     (let i = length exp_subset div 2
      in toeplitz (rev (take (Suc i) exp_subset)) (drop i exp_subset))"

definition get_expected_matrix ::
  "int \<times> int \<Rightarrow> int \<times> int \<Rightarrow> fval list \<Rightarrow> bool \<Rightarrow> py_error + fval array2" where
  "get_expected_matrix left_interval right_interval expected local =
     (case left_interval of (lo_left, hi_left) \<Rightarrow>
      case right_interval of (lo_right, hi_right) \<Rightarrow>
        let exp_lo = lo_right - hi_left + 1;
            exp_hi = hi_right - lo_left
        in if exp_lo < 0 then
             bind_err
               (if local then pad_reflect_left (nat (- exp_lo)) (py_slice expected 0 exp_hi)
                else Inr (pad_constant_left (nat (- exp_lo)) (py_slice expected 0 exp_hi)))
               (\<lambda>exp_subset. Inr (toeplitz_about exp_subset))
           else Inr (toeplitz_about (py_slice expected exp_lo exp_hi)))"

section \<open>Window descriptors\<close>

text \<open>
  A window descriptor is the tuple \<open>(stBin, endBin, stPad, endPad)\<close> the enumerators
  yield.  A row of the loci table holds the chromosome, the midpoint in base pairs and the
  pad (half the width, so possibly a half-integer); a row of the paired table holds both
  sides.
\<close>

type_synonym desc = "int \<times> int \<times> int \<times> int"

record locus =
  chr :: string
  Mids :: int
  Pad :: rat

record locus_pair =
  chr1 :: string
  Mids1 :: int
  Pad1 :: rat
  chr2 :: string
  Mids2 :: int
  Pad2 :: rat

datatype loci_table = Loci "locus list" | LociPairs "locus_pair list"

fun len_table :: "loci_table \<Rightarrow> nat" where
  "len_table (Loci rows) = length rows"
| "len_table (LociPairs rows) = length rows"

text \<open>Python's \<open>round\<close>: to the nearest integer, a tie to the even one.\<close>

definition py_round :: "rat \<Rightarrow> int" where
  "py_round x =
     (let f = \<lfloor>x\<rfloor>; d = x - of_int f
      in if d < 1 / 2 then f else if 1 / 2 < d then f + 1 else if even f then f else f + 1)"

text \<open>\<open>itertools.combinations(xs, 2)\<close>, in its order.\<close>

fun combinations2 :: "'a list \<Rightarrow> ('a \<times> 'a) list" where
  "combinations2 [] = []"
| "combinations2 (x # xs) = map (Pair x) xs @ combinations2 xs"

text \<open>
  The enumerators are generators: nothing of their body runs before the first item is
  asked for, and an exception raised in the body surfaces at that moment.  The value of a
  generator is therefore \<open>py_error + desc list\<close>: the exception its consumer meets, or
  the items it yields.  \<open>//\<close> is floor division.  The bin size of a cooler is not zero;
  at zero the quotient of the column is not finite, and \<open>.values.astype(int)\<close> turns it
  into the least int64 without raising, while \<open>.astype(int).values\<close> (on the pandas
  column) raises a ValueError and Python's own \<open>//\<close> a ZeroDivisionError.
\<close>

definition int64_min :: int where
  "int64_min = - (2 ^ 63)"

definition get_combinations ::
  "locus list \<Rightarrow> int \<Rightarrow> bool \<Rightarrow> (string \<times> int \<times> int) option \<Rightarrow> py_error + desc list" where
  "get_combinations mids res local anchor =
     (if local \<and> anchor \<noteq> None then Inl ValueError
      else
        let m = map (\<lambda>row. if res = 0 then int64_min else Mids row div res) mids;
            p = map (\<lambda>row. if res = 0 then int64_min else \<lfloor>Pad row / of_int res\<rfloor>) mids
        in if local then Inr (map (\<lambda>(i, pi). (i, i, pi, pi)) (zip m p))
           else (case anchor of
                   Some (anchor_chrom, anchor_start, anchor_end) \<Rightarrow>
                     if res = 0 then Inl ZeroDivisionError
                     else
                       let anchor_bin = \<lfloor>(of_int (anchor_start + anchor_end) / 2) / (of_int res :: rat)\<rfloor>;
                           anchor_pad = py_round (of_int (anchor_end - anchor_start) / 2)
                       in Inr (map (\<lambda>(i, pi). (anchor_bin, i, anchor_pad, pi)) (zip m p))
                 | None \<Rightarrow>
                     Inr (map (\<lambda>((i1, i2), (j1, j2)). (i1, i2, j1, j2))
                            (zip (combinations2 m) (combinations2 p)))))"

definition get_positions_pairs :: "locus_pair list \<Rightarrow> int \<Rightarrow> py_error + desc list" where
  "get_positions_pairs mids res =
     (if res = 0 then (if mids = [] then Inr [] else Inl ValueError)
      else Inr (map (\<lambda>row. (Mids1 row div res, Mids2 row div res,
                              \<lfloor>Pad1 row / of_int res\<rfloor>, \<lfloor>Pad2 row / of_int res\<rfloor>)) mids))"

section \<open>Randomly shifted controls\<close>

text \<open>
  The random source is a sequence of draws, each a pair \<open>(m, u)\<close>: \<open>m\<close> is what
  \<open>np.random.randint(minbin, maxbin)\<close> returns and \<open>u\<close> what \<open>np.random.random()\<close>
  returns.  numpy's contract is \<open>minbin \<le> m < maxbin\<close> and \<open>0 \<le> u < 1\<close>, and
  \<open>randint\<close> raises ValueError when \<open>minbin \<ge> maxbin\<close>.  The sign is
  \<open>np.sign(u - 0.5)\<close>, that is \<open>sgn\<close>.  Draw number \<open>k\<close> of the source serves the
  \<open>k\<close>-th control window.
\<close>

type_synonym rng = "nat \<Rightarrow> int \<times> rat"

definition shift_by :: "int \<times> rat \<Rightarrow> int" where
  "shift_by draw = (case draw of (m, u) \<Rightarrow> m * \<lfloor>sgn (u - 1 / 2)\<rfloor>)"

definition shifted :: "desc \<Rightarrow> int \<Rightarrow> desc" where
  "shifted d shift = (case d of (start, end, p1, p2) \<Rightarrow> (start + shift, end + shift, p1, p2))"

fun control_windows :: "rng \<Rightarrow> nat \<Rightarrow> nat \<Rightarrow> desc list \<Rightarrow> desc list" where
  "control_windows draws k nshifts [] = []"
| "control_windows draws k nshifts (d # ds) =
     map (\<lambda>i. shifted d (shift_by (draws (k + i)))) [0..<nshifts]
     @ control_windows draws (k + nshifts) nshifts ds"

definition controlRegions ::
  "py_error + desc list \<Rightarrow> int \<Rightarrow> int \<Rightarrow> int \<Rightarrow> int \<Rightarrow> rng \<Rightarrow> py_error + desc list" where
  "controlRegions midcombs res minshift maxshift nshifts draws =
     (if res = 0 then Inl ZeroDivisionError
      else
        let minbin = minshift div res;
            maxbin = maxshift div res
        in bind_err midcombs
             (\<lambda>ds. if ds \<noteq> [] \<and> 0 < nshifts \<and> maxbin \<le> minbin then Inl ValueError
                   else Inr (control_windows draws 0 (nat nshifts) ds)))"

section \<open>The aggregation loop\<close>

text \<open>
  What the loop reads from outside the file: the cooler handle \<open>c\<close> (its bin size and
  the fetch of one chromosome's sparse matrix), the module-level \<open>mindist\<close> and
  \<open>maxdist\<close> (\<open>None\<close> is \<open>np.inf\<close>, the default), and the operations of scipy and
  mirnylib on a sparse matrix of type \<open>'d\<close>: slicing a window out of it
  (\<open>data[a:b, c:d].toarray()\<close>), \<open>sparse.triu(data, 2).tocsr()\<close>, \<open>data.tocsr()\<close>, the
  column and row sums, and \<open>numutils.zoomArray\<close> on a block and on a vector.  They are
  parameters: each may raise.  So is \<open>round_scaled rescale_pad stPad\<close>, the value of
  \<open>int(round(rescale_pad*2*stPad))\<close>: the product is taken in float64, whose rounding
  error decides the ties, and floats are not modelled bit by bit here.
\<close>

record 'd cooler =
  binsize :: int
  matrix_fetch :: "string \<Rightarrow> bool \<Rightarrow> py_error + 'd"

record 'd env =
  global_c :: "'d cooler"
  global_mindist :: int
  global_maxdist :: "int option"
  getitem :: "'d \<Rightarrow> int \<times> int \<Rightarrow> int \<times> int \<Rightarrow> py_error + fval array2"
  triu2_tocsr :: "'d \<Rightarrow> 'd"
  tocsr :: "'d \<Rightarrow> 'd"
  sum_axis0 :: "'d \<Rightarrow> fval list"
  sum_axis1 :: "'d \<Rightarrow> fval list"
  zoomArray2 :: "fval array2 \<Rightarrow> int \<Rightarrow> py_error + fval array2"
  zoomArray1 :: "fval list \<Rightarrow> int \<Rightarrow> py_error + fval list"
  round_scaled :: "rat \<Rightarrow> int \<Rightarrow> int"

text \<open>The running totals: the map, the window count and the two coverage marginals.\<close>

type_synonym pile = "fval array2 \<times> int \<times> fval list \<times> fval list"

definition make_outmap :: "int \<Rightarrow> bool \<Rightarrow> int \<Rightarrow> py_error + fval array2" where
  "make_outmap pad rescale rescale_size =
     (if rescale then zeros2 rescale_size rescale_size
      else zeros2 (2 * pad + 1) (2 * pad + 1))"

text \<open>Lines 139-140: the swap of the two bins together with their pads.\<close>

definition orient :: "desc \<Rightarrow> desc" where
  "orient d =
     (case d of (stBin, endBin, stPad, endPad) \<Rightarrow>
        if stBin > endBin then (endBin, stBin, endPad, stPad) else (stBin, endBin, stPad, endPad))"

text \<open>Lines 141-146: the pads the window is cut with.\<close>

definition window_pads :: "'d env \<Rightarrow> int \<Rightarrow> bool \<Rightarrow> rat \<Rightarrow> int \<times> int \<Rightarrow> int \<times> int" where
  "window_pads env pad rescale rescale_pad pads =
     (case pads of (stPad, endPad) \<Rightarrow>
        if rescale
        then (stPad + round_scaled env rescale_pad stPad,
              endPad + round_scaled env rescale_pad endPad)
        else (pad, pad))"

text \<open>Lines 147-150: the left and the right interval.\<close>

definition intervals :: "int \<Rightarrow> int \<Rightarrow> int \<times> int \<Rightarrow> (int \<times> int) \<times> (int \<times> int)" where
  "intervals stBin endBin pads =
     (case pads of (stPad, endPad) \<Rightarrow>
        ((stBin - stPad, stBin + stPad + 1), (endBin - endPad, endBin + endPad + 1)))"

text \<open>Line 151: \<open>mindist <= abs(endBin - stBin)*c.binsize < maxdist or local\<close>.\<close>

definition in_distance_range :: "'d env \<Rightarrow> int \<Rightarrow> int \<Rightarrow> bool" where
  "in_distance_range env stBin endBin =
     (let dist = \<bar>endBin - stBin\<bar> * binsize (global_c env)
      in global_mindist env \<le> dist \<and>
         (case global_maxdist env of None \<Rightarrow> True | Some mx \<Rightarrow> dist < mx))"

text \<open>
  Lines 152-161: the block of one window, \<open>None\<close> when the slicing raised IndexError or
  ValueError and the loop continues with the next window.  With no expected curve and
  \<open>data = False\<close> the subscript raises TypeError.
\<close>

definition window_block ::
  "'d env \<Rightarrow> 'd option \<Rightarrow> fval list option \<Rightarrow> bool \<Rightarrow> int \<times> int \<Rightarrow> int \<times> int
     \<Rightarrow> py_error + fval array2 option" where
  "window_block env data expected local left right =
     (case expected of
        None \<Rightarrow>
          (case data of
             None \<Rightarrow> Inl TypeError
           | Some d \<Rightarrow>
               (case getitem env d left right of
                  Inl e \<Rightarrow> if e = IndexError \<or> e = ValueError then Inr None else Inl e
                | Inr block \<Rightarrow> Inr (Some (map_array2 nan_to_num block))))
      | Some curve \<Rightarrow>
          bind_err (get_expected_matrix left right curve local) (\<lambda>m. Inr (Some m)))"

text \<open>
  Lines 162-167: \<open>np.pad(newmap, [(y, 0), (0, x)], 'constant')\<close> puts \<open>y\<close> rows of zeros
  on top and \<open>x\<close> columns of zeros on the right; a negative width raises ValueError.
\<close>

definition pad_to_shape :: "nat \<Rightarrow> nat \<Rightarrow> fval array2 \<Rightarrow> py_error + fval array2" where
  "pad_to_shape h w newmap =
     (let x = int w - int (ncols newmap);
          y = int h - int (nrows newmap)
      in if x < 0 \<or> y < 0 then Inl ValueError
         else Inr \<lparr>nrows = h, ncols = w,
                   cells = replicate (nat y) (replicate w (Fin 0))
                           @ map (\<lambda>row. row @ replicate (nat x) (Fin 0)) (cells newmap)\<rparr>)"

text \<open>Lines 162-173: the block brought to the shape of the output map.\<close>

definition fit_block ::
  "'d env \<Rightarrow> bool \<Rightarrow> int \<Rightarrow> fval array2 \<Rightarrow> fval array2 \<Rightarrow> py_error + fval array2" where
  "fit_block env rescale rescale_size mymap newmap =
     bind_err
       (if shape newmap \<noteq> shape mymap \<and> \<not> rescale
        then pad_to_shape (nrows mymap) (ncols mymap) newmap else Inr newmap)
       (\<lambda>newmap.
          if rescale
          then (if array_size newmap = 0 then zeros2 rescale_size rescale_size
                else zoomArray2 env newmap rescale_size)
          else Inr newmap)"

text \<open>
  Lines 177-195: the two coverage slices of a window.  Without rescaling each is padded
  to the side of the map inside one \<open>try\<close> whose handler only prints: when the first
  \<open>np.pad\<close> raises both slices stay as they are, when the second raises the first is
  already padded.
\<close>

definition coverage_slices ::
  "'d env \<Rightarrow> bool \<Rightarrow> int \<Rightarrow> fval array2 \<Rightarrow> fval list \<Rightarrow> int \<times> int \<Rightarrow> int \<times> int
     \<Rightarrow> py_error + fval list \<times> fval list" where
  "coverage_slices env rescale rescale_size mymap coverage left right =
     (let new_cov_start = py_slice coverage (fst left) (snd left);
          new_cov_end = py_slice coverage (fst right) (snd right)
      in if rescale then
           bind_err (if length new_cov_start = 0 then zeros1 rescale_size else Inr new_cov_start)
             (\<lambda>new_cov_start.
                bind_err (if length new_cov_end = 0 then zeros1 rescale_size else Inr new_cov_end)
                  (\<lambda>new_cov_end.
                     bind_err (zoomArray1 env new_cov_start rescale_size)
                       (\<lambda>new_cov_start.
                          bind_err (zoomArray1 env new_cov_end rescale_size)
                            (\<lambda>new_cov_end. Inr (new_cov_start, new_cov_end)))))
         else
           let l = length new_cov_start;
               r = length new_cov_end
           in if nrows mymap < l then Inr (new_cov_start, new_cov_end)
              else
                let padded_start = replicate (nrows mymap - l) (Fin 0) @ new_cov_start
                in if ncols mymap < r then Inr (padded_start, new_cov_end)
                   else Inr (padded_start, new_cov_end @ replicate (ncols mymap - r) (Fin 0)))"

text \<open>Lines 175-198: one window added to the totals.\<close>

definition add_window ::
  "'d env \<Rightarrow> bool \<Rightarrow> bool \<Rightarrow> bool \<Rightarrow> bool \<Rightarrow> int \<Rightarrow> fval list option
     \<Rightarrow> int \<times> int \<Rightarrow> int \<times> int \<Rightarrow> fval array2 \<Rightarrow> pile \<Rightarrow> py_error + pile" where
  "add_window env expected_is_False unbalanced cov_norm rescale rescale_size coverage
       left right newmap acc =
     (case acc of (mymap, n, cov_start, cov_end) \<Rightarrow>
        bind_err (inplace2 fadd mymap (map_array2 nan_to_num newmap))
          (\<lambda>mymap.
             if unbalanced \<and> cov_norm \<and> expected_is_False then
               (case coverage of
                  None \<Rightarrow> Inl TypeError
                | Some cov \<Rightarrow>
                    bind_err (coverage_slices env rescale rescale_size mymap cov left right)
                      (\<lambda>(new_cov_start, new_cov_end).
                         bind_err (inplace1 fadd cov_start (map nan_to_num new_cov_start))
                           (\<lambda>cov_start.
                              bind_err (inplace1 fadd cov_end (map nan_to_num new_cov_end))
                                (\<lambda>cov_end. Inr (mymap, n + 1, cov_start, cov_end)))))
             else Inr (mymap, n + 1, cov_start, cov_end)))"

text \<open>Lines 138-198: the body of the loop for one descriptor.\<close>

definition do_pileups_step ::
  "'d env \<Rightarrow> 'd option \<Rightarrow> int \<Rightarrow> fval list option \<Rightarrow> bool \<Rightarrow> bool \<Rightarrow> bool \<Rightarrow> bool
     \<Rightarrow> rat \<Rightarrow> int \<Rightarrow> fval list option \<Rightarrow> pile \<Rightarrow> desc \<Rightarrow> py_error + pile" where
  "do_pileups_step env data pad expected local unbalanced cov_norm rescale rescale_pad
       rescale_size coverage acc d =
     (case orient d of (stBin, endBin, stPad, endPad) \<Rightarrow>
        (case intervals stBin endBin (window_pads env pad rescale rescale_pad (stPad, endPad)) of
           (left, right) \<Rightarrow>
             if in_distance_range env stBin endBin \<or> local then
               bind_err (window_block env data expected local left right)
                 (\<lambda>block.
                    case block of
                      None \<Rightarrow> Inr acc
                    | Some newmap \<Rightarrow>
                        bind_err (fit_block env rescale rescale_size (fst acc) newmap)
                          (\<lambda>newmap.
                             add_window env (expected = None) unbalanced cov_norm rescale
                               rescale_size coverage left right newmap acc))
             else Inr acc))"

fun do_pileups_loop :: "(pile \<Rightarrow> desc \<Rightarrow> py_error + pile) \<Rightarrow> pile \<Rightarrow> desc list \<Rightarrow> py_error + pile" where
  "do_pileups_loop step acc [] = Inr acc"
| "do_pileups_loop step acc (d # ds) =
     (case step acc d of Inl e \<Rightarrow> Inl e | Inr acc' \<Rightarrow> do_pileups_loop step acc' ds)"

text \<open>
  \<open>_do_pileups\<close>: the totals start at zero, then the generator \<open>mids\<close> is consumed.  An
  exception of the generator's body surfaces here, at the head of the loop.
\<close>

definition do_pileups ::
  "'d env \<Rightarrow> py_error + desc list \<Rightarrow> 'd option \<Rightarrow> int \<Rightarrow> fval list option \<Rightarrow> bool \<Rightarrow> bool
     \<Rightarrow> bool \<Rightarrow> bool \<Rightarrow> rat \<Rightarrow> int \<Rightarrow> fval list option \<Rightarrow> py_error + pile" where
  "do_pileups env mids data pad expected local unbalanced cov_norm rescale rescale_pad
       rescale_size coverage =
     bind_err (make_outmap pad rescale rescale_size)
       (\<lambda>mymap.
          bind_err mids
            (do_pileups_loop
               (do_pileups_step env data pad expected local unbalanced cov_norm rescale
                  rescale_pad rescale_size coverage)
               (mymap, 0, replicate (nrows mymap) (Fin 0), replicate (ncols mymap) (Fin 0))))"

section \<open>One chromosome\<close>

text \<open>
  The only access to the contact-matrix store is \<open>get_data\<close>: the trace of a task lists
  the fetches it made, in order, each with the chromosome and the \<open>balance\<close> flag
  \<open>bool(1-unbalanced)\<close>.
\<close>

datatype event = Fetch string bool

type_synonym 'a traced = "event list \<times> (py_error + 'a)"

definition get_data :: "'d env \<Rightarrow> string \<Rightarrow> 'd cooler \<Rightarrow> bool \<Rightarrow> bool \<Rightarrow> 'd traced" where
  "get_data env chrom c unbalanced local =
     ([Fetch chrom (\<not> unbalanced)],
      bind_err (matrix_fetch c chrom (\<not> unbalanced))
        (\<lambda>data. Inr (if local then tocsr env data else triu2_tocsr env data)))"

text \<open>
  The expected table has a row per chromosome and distance, in order of distance:
  \<open>expected[expected['chrom']==chrom]['balanced.avg'].values\<close> is the \<open>balanced.avg\<close>
  column of the chromosome's rows.
\<close>

definition expected_of_chrom :: "(string \<times> fval) list \<Rightarrow> string \<Rightarrow> fval list" where
  "expected_of_chrom expected chrom =
     map nan_to_num (map snd (filter (\<lambda>row. fst row = chrom) expected))"

text \<open>
  Lines 236-253: the asserts on the chromosome column and the choice of the generator.
  The flag \<open>combinations\<close> says which of the two tables \<open>mids\<close> is; the other one has not
  the columns asked for (KeyError).
\<close>

definition window_generator ::
  "string \<Rightarrow> loci_table \<Rightarrow> 'd cooler \<Rightarrow> bool \<Rightarrow> bool \<Rightarrow> int \<Rightarrow> int \<Rightarrow> int \<Rightarrow> bool
     \<Rightarrow> (string \<times> int \<times> int) option \<Rightarrow> rng \<Rightarrow> py_error + (py_error + desc list)" where
  "window_generator chrom mids c ctrl local minshift maxshift nshifts combinations anchor draws =
     (if combinations then
        (case mids of
           LociPairs _ \<Rightarrow> Inl KeyError
         | Loci rows \<Rightarrow>
             if \<not> list_all (\<lambda>row. chr row = chrom) rows then Inl AssertionError
             else if ctrl
               then Inr (controlRegions (get_combinations rows (binsize c) local anchor)
                           (binsize c) minshift maxshift nshifts draws)
               else Inr (get_combinations rows (binsize c) local anchor))
      else
        (case mids of
           Loci _ \<Rightarrow> Inl KeyError
         | LociPairs rows \<Rightarrow>
             if \<not> list_all (\<lambda>row. chr1 row = chrom) rows then Inl AssertionError
             else if ctrl
               then Inr (controlRegions (get_positions_pairs rows (binsize c))
                           (binsize c) minshift maxshift nshifts draws)
               else Inr (get_positions_pairs rows (binsize c))))"

text \<open>
  \<open>pileups\<close>.  Its parameters \<open>mindist\<close> and \<open>maxdist\<close> are not handed on: the loop reads
  the module-level ones.  The result is the trace of fetches with the exception or the
  totals.
\<close>

definition pileups ::
  "'d env \<Rightarrow> string \<times> loci_table \<Rightarrow> 'd cooler \<Rightarrow> int \<Rightarrow> bool \<Rightarrow> bool \<Rightarrow> int \<Rightarrow> int \<Rightarrow> int
     \<Rightarrow> (string \<times> fval) list option \<Rightarrow> bool \<Rightarrow> (string \<times> int \<times> int) option \<Rightarrow> bool \<Rightarrow> bool
     \<Rightarrow> bool \<Rightarrow> rat \<Rightarrow> int \<Rightarrow> rng \<Rightarrow> pile traced" where
  "pileups env chrom_mids c pad ctrl local minshift maxshift nshifts expected combinations
       anchor unbalanced cov_norm rescale rescale_pad rescale_size draws =
     (case chrom_mids of (chrom, mids) \<Rightarrow>
        (case make_outmap pad rescale rescale_size of
           Inl e \<Rightarrow> ([], Inl e)
         | Inr mymap \<Rightarrow>
             if \<not> len_table mids > 1
             then ([], Inr (mymap, 0, replicate (nrows mymap) (Fin 0),
                            replicate (ncols mymap) (Fin 0)))
             else
               (case (case expected of
                        Some table \<Rightarrow> ([], Inr (None, Some (expected_of_chrom table chrom)))
                      | None \<Rightarrow>
                          (case get_data env chrom c unbalanced local of
                             (trace, r) \<Rightarrow> (trace, bind_err r (\<lambda>data. Inr (Some data, None)))))
                of
                  (trace, Inl e) \<Rightarrow> (trace, Inl e)
                | (trace, Inr (data, expected)) \<Rightarrow>
                    (trace,
                     bind_err
                       (if unbalanced \<and> cov_norm \<and> expected = None then
                          (case data of
                             None \<Rightarrow> Inl TypeError
                           | Some d \<Rightarrow>
                               bind_err (add1 (map nan_to_num (sum_axis0 env d))
                                              (map nan_to_num (sum_axis1 env d)))
                                 (\<lambda>coverage. Inr (Some coverage)))
                        else Inr None)
                       (\<lambda>coverage.
                          if (case anchor of Some a \<Rightarrow> fst a \<noteq> chrom | None \<Rightarrow> False)
                          then Inl AssertionError
                          else
                            bind_err
                              (window_generator chrom mids c ctrl local minshift maxshift
                                 nshifts combinations anchor draws)
                              (\<lambda>gen. do_pileups env gen data pad expected local unbalanced
                                        cov_norm rescale rescale_pad rescale_size coverage))))))"

section \<open>The genome-wide map\<close>

text \<open>\<open>np.outer\<close> and \<open>np.nanmean\<close> (the mean of the entries that are not NaN, NaN if none).\<close>

definition outer :: "fval list \<Rightarrow> fval list \<Rightarrow> fval array2" where
  "outer xs ys =
     \<lparr>nrows = length xs, ncols = length ys, cells = map (\<lambda>x. map (\<lambda>y. fmul x y) ys) xs\<rparr>"

definition nanmean :: "fval array2 \<Rightarrow> fval" where
  "nanmean A =
     (let entries = filter (\<lambda>x. \<not> isnan x) (concat (cells A))
      in fdiv (foldl fadd (Fin 0) entries) (Fin (of_nat (length entries))))"

text \<open>
  \<^verbatim>\<open>coverage = np.outer(cov_start, cov_end)
  coverage /= np.nanmean(coverage)
  loop /= coverage
  loop[np.isnan(loop)]=0\<close>
\<close>

definition norm_coverage :: "fval array2 \<Rightarrow> fval list \<Rightarrow> fval list \<Rightarrow> py_error + fval array2" where
  "norm_coverage loop cov_start cov_end =
     (let coverage = outer cov_start cov_end;
          mean = nanmean coverage;
          coverage = map_array2 (\<lambda>x. fdiv x mean) coverage
      in bind_err (inplace2 fdiv loop coverage)
           (\<lambda>loop. Inr (map_array2 (\<lambda>x. if isnan x then Fin 0 else x) loop)))"

text \<open>
  \<open>np.sum(arrays, axis=0)\<close> of the tasks' arrays, which must agree in shape; the tuple
  assignment from \<open>zip(*results)\<close> raises ValueError when there is no task at all.
\<close>

fun sum_arrays2 :: "fval array2 list \<Rightarrow> py_error + fval array2" where
  "sum_arrays2 [] = Inl ValueError"
| "sum_arrays2 [A] = Inr A"
| "sum_arrays2 (A # B # rest) =
     (if shape A \<noteq> shape B then Inl ValueError
      else sum_arrays2 (\<lparr>nrows = nrows A, ncols = ncols A,
                         cells = map2 (map2 fadd) (cells A) (cells B)\<rparr> # rest))"

fun sum_arrays1 :: "fval list list \<Rightarrow> py_error + fval list" where
  "sum_arrays1 [] = Inl ValueError"
| "sum_arrays1 [xs] = Inr xs"
| "sum_arrays1 (xs # ys # rest) =
     (if length xs \<noteq> length ys then Inl ValueError
      else sum_arrays1 (map2 fadd xs ys # rest))"

text \<open>
  Lines 296-303, and again 314-321: the results of one pass over the chromosomes summed,
  normalized by coverage when asked, and divided by the number of windows.  Both
  marginals handed to \<open>norm_coverage\<close> are the sum of \<open>cov_starts\<close>.
\<close>

definition combine_pass :: "bool \<Rightarrow> pile list \<Rightarrow> py_error + fval array2" where
  "combine_pass cov_norm results =
     (let loops = map (\<lambda>(m, n, cs, ce). m) results;
          ns = map (\<lambda>(m, n, cs, ce). n) results;
          cov_starts = map (\<lambda>(m, n, cs, ce). cs) results;
          cov_ends = map (\<lambda>(m, n, cs, ce). ce) results
      in bind_err (sum_arrays2 loops)
           (\<lambda>loop.
              let n = sum_list ns
              in bind_err
                   (if cov_norm then
                      bind_err (sum_arrays1 cov_starts)
                        (\<lambda>cov_start.
                           bind_err (sum_arrays1 cov_starts)
                             (\<lambda>cov_end. norm_coverage loop cov_start cov_end))
                    else Inr loop)
                   (\<lambda>loop. Inr (map_array2 (\<lambda>x. fdiv x (Fin (of_int n))) loop))))"

text \<open>
  \<open>chrom_mids\<close> with the module-level \<open>combinations\<close>, and \<open>p.map\<close>: every task runs, the
  traces follow each other, and the first exception among the tasks is raised.
\<close>

definition chrom_mids :: "bool \<Rightarrow> string list \<Rightarrow> loci_table \<Rightarrow> py_error + (string \<times> loci_table) list" where
  "chrom_mids combinations chroms mids =
     (if chroms = [] then Inr []
      else if combinations then
        (case mids of
           Loci rows \<Rightarrow> Inr (map (\<lambda>chrom. (chrom, Loci (filter (\<lambda>row. chr row = chrom) rows))) chroms)
         | LociPairs _ \<Rightarrow> Inl KeyError)
      else
        (case mids of
           LociPairs rows \<Rightarrow>
             Inr (map (\<lambda>chrom. (chrom, LociPairs (filter (\<lambda>row. chr1 row = chrom) rows))) chroms)
         | Loci _ \<Rightarrow> Inl KeyError))"

fun pool_map :: "('a \<Rightarrow> 'b traced) \<Rightarrow> 'a list \<Rightarrow> 'b list traced" where
  "pool_map f [] = ([], Inr [])"
| "pool_map f (x # xs) =
     (case f x of (t, r) \<Rightarrow>
        (case pool_map f xs of (ts, rs) \<Rightarrow>
           (t @ ts,
            case r of Inl e \<Rightarrow> Inl e
            | Inr y \<Rightarrow> (case rs of Inl e \<Rightarrow> Inl e | Inr ys \<Rightarrow> Inr (y # ys)))))"

definition run_pass ::
  "'d env \<Rightarrow> bool \<Rightarrow> string list \<Rightarrow> loci_table \<Rightarrow> 'd cooler \<Rightarrow> int \<Rightarrow> bool \<Rightarrow> bool \<Rightarrow> int \<Rightarrow> int
     \<Rightarrow> int \<Rightarrow> (string \<times> fval) list option \<Rightarrow> bool \<Rightarrow> (string \<times> int \<times> int) option \<Rightarrow> bool
     \<Rightarrow> bool \<Rightarrow> bool \<Rightarrow> rat \<Rightarrow> int \<Rightarrow> (string \<Rightarrow> rng) \<Rightarrow> pile list traced" where
  "run_pass env global_combinations chroms mids c pad ctrl local minshift maxshift nshifts
       expected combinations anchor unbalanced cov_norm rescale rescale_pad rescale_size draws =
     (case chrom_mids global_combinations chroms mids of
        Inl e \<Rightarrow> ([], Inl e)
      | Inr tasks \<Rightarrow>
          pool_map
            (\<lambda>task. pileups env task c pad ctrl local minshift maxshift nshifts expected
                       combinations anchor unbalanced cov_norm rescale rescale_pad rescale_size
                       (draws (fst task)))
            tasks)"

text \<open>
  \<open>pileupsWithControl\<close>, over the pool's map: \<open>pmap ctrl expected\<close> is what
  \<open>p.map(f, chrom_mids(chroms, mids))\<close> returns for the task \<open>f\<close> built with these two
  arguments.  The observed pass runs first; the control pass runs when \<open>nshifts > 0\<close>,
  else the expected pass when an expected table is given (lines 331-335 sum and divide by
  the count without coverage normalization).  Every division is numpy's elementwise one.
\<close>

definition pileupsWithControl_over ::
  "(bool \<Rightarrow> (string \<times> fval) list option \<Rightarrow> pile list traced) \<Rightarrow> bool \<Rightarrow> int
     \<Rightarrow> (string \<times> fval) list option \<Rightarrow> fval array2 traced" where
  "pileupsWithControl_over pmap cov_norm nshifts expected =
     (case pmap False None of (t1, r1) \<Rightarrow>
        (case bind_err r1 (combine_pass cov_norm) of
           Inl e \<Rightarrow> (t1, Inl e)
         | Inr loop \<Rightarrow>
             if nshifts > 0 then
               (case pmap True None of (t2, r2) \<Rightarrow>
                  (t1 @ t2,
                   bind_err r2
                     (\<lambda>ctrls. bind_err (combine_pass cov_norm ctrls)
                                 (\<lambda>ctrl. inplace2 fdiv loop ctrl))))
             else
               (case expected of
                  Some table \<Rightarrow>
                    (case pmap False (Some table) of (t3, r3) \<Rightarrow>
                       (t1 @ t3,
                        bind_err r3
                          (\<lambda>exps. bind_err (combine_pass False exps)
                                      (\<lambda>exp. inplace2 fdiv loop exp))))
                | None \<Rightarrow> (t1, Inr loop))))"

definition pileupsWithControl ::
  "'d env \<Rightarrow> bool \<Rightarrow> loci_table \<Rightarrow> 'd cooler \<Rightarrow> int \<Rightarrow> string list \<Rightarrow> bool \<Rightarrow> int \<Rightarrow> int \<Rightarrow> int
     \<Rightarrow> (string \<times> fval) list option \<Rightarrow> bool \<Rightarrow> (string \<times> int \<times> int) option \<Rightarrow> bool
     \<Rightarrow> bool \<Rightarrow> bool \<Rightarrow> rat \<Rightarrow> int \<Rightarrow> (bool \<Rightarrow> string \<Rightarrow> rng) \<Rightarrow> fval array2 traced" where
  "pileupsWithControl env global_combinations mids c pad chroms local minshift maxshift nshifts
       expected combinations anchor unbalanced cov_norm rescale rescale_pad rescale_size draws =
     pileupsWithControl_over
       (\<lambda>ctrl expected'.
          run_pass env global_combinations chroms mids c pad ctrl local minshift maxshift
            nshifts expected' combinations anchor unbalanced cov_norm rescale rescale_pad
            rescale_size (draws ctrl))
       cov_norm nshifts expected"

section \<open>Auxiliary notions of the statements\<close>

text \<open>The two bins of a descriptor, and a task's result without its \<open>cov_end\<close>.\<close>

definition bins :: "desc \<Rightarrow> int \<times> int" where
  "bins d = (case d of (stBin, endBin, stPad, endPad) \<Rightarrow> (stBin, endBin))"

definition without_cov_end :: "pile \<Rightarrow> fval array2 \<times> int \<times> fval list" where
  "without_cov_end r = (case r of (mymap, n, cov_start, cov_end) \<Rightarrow> (mymap, n, cov_start))"

text \<open>A pool whose every pass returns the same results and fetches nothing.\<close>

definition same_results :: "pile list \<Rightarrow> bool \<Rightarrow> (string \<times> fval) list option \<Rightarrow> pile list traced" where
  "same_results rs ctrl expected = ([], Inr rs)"

text \<open>
  A toy store for the worked instances: bins of 1000 base pairs, windows between 5000 and
  100000 base pairs apart, an opaque matrix for every chromosome, of which every window
  reads as a 3 by 3 block of ones; no zoom.
\<close>

definition toy_cooler :: "unit cooler" where
  "toy_cooler = \<lparr>binsize = 1000, matrix_fetch = (\<lambda>chrom balance. Inr ())\<rparr>"

definition toy_env :: "unit env" where
  "toy_env =
     \<lparr>global_c = toy_cooler, global_mindist = 5000, global_maxdist = Some 100000,
      getitem = (\<lambda>d left right.
                   Inr \<lparr>nrows = 3, ncols = 3, cells = replicate 3 (replicate 3 (Fin 1))\<rparr>),
      triu2_tocsr = id, tocsr = id,
      sum_axis0 = (\<lambda>d. []), sum_axis1 = (\<lambda>d. []),
      zoomArray2 = (\<lambda>A k. Inl OtherError), zoomArray1 = (\<lambda>xs k. Inl OtherError),
      round_scaled = (\<lambda>rescale_pad stPad. py_round (rescale_pad * 2 * of_int stPad))\<rparr>"

text \<open>
  A probing store: every window of its matrix reads as the 2 by 2 block of the window's
  own coordinates, \<open>lo_left, hi_left\<close> over \<open>lo_right, hi_right\<close>; no distance is
  excluded, the zoom leaves a block as it is and the pads are not inflated.
\<close>

definition probe_env :: "unit env" where
  "probe_env =
     \<lparr>global_c = \<lparr>binsize = 1000, matrix_fetch = (\<lambda>chrom balance. Inr ())\<rparr>,
      global_mindist = 0, global_maxdist = None,
      getitem = (\<lambda>d left right.
                   Inr \<lparr>nrows = 2, ncols = 2,
                        cells = [[Fin (of_int (fst left)), Fin (of_int (snd left))],
                                 [Fin (of_int (fst right)), Fin (of_int (snd right))]]\<rparr>),
      triu2_tocsr = id, tocsr = id,
      sum_axis0 = (\<lambda>d. []), sum_axis1 = (\<lambda>d. []),
      zoomArray2 = (\<lambda>A k. Inr A), zoomArray1 = (\<lambda>xs k. Inr xs),
      round_scaled = (\<lambda>rescale_pad stPad. 0)\<rparr>"

text \<open>
  A well-formed array has as many rows as \<open>nrows\<close> says, each of \<open>ncols\<close> entries.  A
  pool that returns \<open>observed\<close> for the pass over the real windows and for the expected
  pass, and \<open>controls\<close> for the control pass.
\<close>

definition wf_array2 :: "'a array2 \<Rightarrow> bool" where
  "wf_array2 A = (length (cells A) = nrows A \<and> list_all (\<lambda>row. length row = ncols A) (cells A))"

definition two_results ::
  "pile list \<Rightarrow> pile list \<Rightarrow> bool \<Rightarrow> (string \<times> fval) list option \<Rightarrow> pile list traced" where
  "two_results observed controls ctrl expected = ([], Inr (if ctrl then controls else observed))"

definition toy_loci :: "locus list" where
  "toy_loci =
     [\<lparr>chr = ''chr1'', Mids = 10500, Pad = 500\<rparr>, \<lparr>chr = ''chr1'', Mids = 30500, Pad = 500\<rparr>]"

section \<open>Results\<close>

subsection \<open>Validation of the rescale size (C6)\<close>

text \<open>
  C6: with rescaling enabled, validation should reject every even \<open>rescale_size\<close> and
  accept every odd one.  The check tests divisibility by three instead: the even size 6 is
  accepted and the odd size 5 is rejected.
\<close>

theorem rescale_size_check_mod3:
  "check_rescale_size True 6 = Inr () \<and> check_rescale_size True 5 = Inl ValueError"
  by (simp add: check_rescale_size_def)

subsection \<open>The expected matrix (C2)\<close>

lemma reflect_index_neg:
  assumes "0 < k" "k < int len"
  shows "reflect_index len (- k) = nat k"
proof -
  have len2: "2 \<le> len" using assms by linarith
  define period where "period = 2 * (int len - 1)"
  have kp: "k < period" using assms len2 by (simp add: period_def)
  have "(- k) mod period = period - k"
    using assms(1) kp by (smt (verit) mod_pos_pos_trivial mod_add_self1 zmod_zminus1_eq_if)
  then show ?thesis
    using assms len2 unfolding reflect_index_def period_def[symmetric] Let_def
    by (auto simp: period_def)
qed

lemma toeplitz_about_shape:
  assumes "length xs = 2 * w - 1" "0 < w"
  shows "nrows (toeplitz_about xs) = w" "ncols (toeplitz_about xs) = w"
proof -
  have i: "length xs div 2 = w - 1" using assms by simp
  show "nrows (toeplitz_about xs) = w" "ncols (toeplitz_about xs) = w"
    using assms by (simp_all add: toeplitz_about_def Let_def toeplitz_def i)
qed

lemma toeplitz_about_nth:
  assumes "length xs = 2 * w - 1" "a < w" "b < w"
  shows "cells (toeplitz_about xs) ! a ! b = xs ! (w - 1 + b - a)"
proof -
  have i: "length xs div 2 = w - 1" using assms by simp
  have la: "a < length (rev (take (Suc (w - 1)) xs))" using assms by simp
  have lb: "b < length (drop (w - 1) xs)" using assms by simp
  have "cells (toeplitz_about xs) ! a ! b =
        (if b \<le> a then rev (take (Suc (w - 1)) xs) ! (a - b) else drop (w - 1) xs ! (b - a))"
    using la lb by (simp add: toeplitz_about_def Let_def toeplitz_def i del: length_rev length_take length_drop rev_take)
  also have "\<dots> = xs ! (w - 1 + b - a)"
  proof (cases "b \<le> a")
    case True
    have "rev (take (Suc (w - 1)) xs) ! (a - b) = take (Suc (w - 1)) xs ! (w - 1 - (a - b))"
      using assms True by (subst rev_nth) (simp_all)
    also have "\<dots> = xs ! (w - 1 - (a - b))" using assms by simp
    also have "w - 1 - (a - b) = w - 1 + b - a" using assms True by simp
    finally show ?thesis using True by simp
  next
    case False
    then show ?thesis using assms by (simp add: add.commute)
  qed
  finally show ?thesis .
qed


lemma expected_window_entry:
  assumes w: "0 < w"
    and D: "lo_right = lo_left + int D"
    and len: "D + w \<le> length expected"
    and a: "a < w" and b: "b < w"
  shows "\<exists>M. get_expected_matrix (lo_left, lo_left + int w) (lo_right, lo_right + int w)
               expected local = Inr M \<and> nrows M = w \<and> ncols M = w \<and>
             cells M ! a ! b =
               (let d = (lo_right + int b) - (lo_left + int a)
                in if 0 \<le> d then expected ! nat d
                   else if local then expected ! nat (- d) else Fin 0)"
proof (cases "w \<le> Suc D")
  case True
  define xs where "xs = py_slice expected (int D - int w + 1) (int D + int w)"
  have lxs: "length xs = 2 * w - 1"
    using True len w by (simp add: xs_def py_slice_def slice_bound_def Let_def)
  have xsn: "xs ! k = expected ! (D + 1 - w + k)" if "k < 2 * w - 1" for k
  proof -
    have "nat (int D - int w + 1) = D + 1 - w" using True by simp
    then show ?thesis
      using True len w that by (simp add: xs_def py_slice_def slice_bound_def Let_def)
  qed
  have g: "get_expected_matrix (lo_left, lo_left + int w) (lo_right, lo_right + int w)
             expected local = Inr (toeplitz_about xs)"
    using True by (simp add: get_expected_matrix_def Let_def D xs_def algebra_simps)
  have idx: "w - 1 + b - a < 2 * w - 1" using a b w by simp
  have "cells (toeplitz_about xs) ! a ! b = expected ! (D + 1 - w + (w - 1 + b - a))"
    using toeplitz_about_nth[OF lxs a b] xsn[OF idx] by simp
  also have "D + 1 - w + (w - 1 + b - a) = D + b - a" using True a b w by simp
  finally have c: "cells (toeplitz_about xs) ! a ! b = expected ! (D + b - a)" .
  have d: "(lo_right + int b) - (lo_left + int a) = int (D + b - a)"
    using True a b w by (simp add: D)
  show ?thesis
    using g toeplitz_about_shape[OF lxs w] c d by (simp add: Let_def del: of_nat_diff)
next
  case False
  define p where "p = w - 1 - D"
  define base where "base = py_slice expected 0 (int D + int w)"
  have p: "0 < p" "p + D + 1 = w" using False by (simp_all add: p_def)
  have lbase: "length base = D + w"
    using len by (simp add: base_def py_slice_def slice_bound_def Let_def)
  have basen: "base ! k = expected ! k" if "k < D + w" for k
    using len that by (simp add: base_def py_slice_def slice_bound_def Let_def)
  have pn: "nat (- (int D - int w + 1)) = p" using False by (simp add: p_def)
  have neg: "int D - int w + 1 < 0" using False by simp
  have idx: "w - 1 + b - a < 2 * w - 1" using a b w by simp
  have d: "(lo_right + int b) - (lo_left + int a) = int D + int b - int a"
    by (simp add: D)
  show ?thesis
  proof (cases local)
    case True
    define xs where "xs = map (\<lambda>k. base ! reflect_index (length base) (int k - int p)) [0..<p] @ base"
    have bne: "base \<noteq> []" using lbase w by auto
    have lxs: "length xs = 2 * w - 1" using p lbase by (simp add: xs_def)
    have g: "get_expected_matrix (lo_left, lo_left + int w) (lo_right, lo_right + int w)
               expected local = Inr (toeplitz_about xs)"
      using True neg pn bne
      by (simp add: get_expected_matrix_def Let_def D xs_def algebra_simps base_def
            pad_reflect_left_def bind_err_def)
    have c: "cells (toeplitz_about xs) ! a ! b = xs ! (w - 1 + b - a)"
      by (rule toeplitz_about_nth[OF lxs a b])
    have v: "xs ! (w - 1 + b - a) =
             (if 0 \<le> int D + int b - int a then expected ! nat (int D + int b - int a)
              else expected ! nat (- (int D + int b - int a)))"
    proof (cases "w - 1 + b - a < p")
      case True
      then have dneg: "int D + int b - int a < 0" using p a b by linarith
      have k1: "0 < - (int D + int b - int a)" using dneg by simp
      have k2: "- (int D + int b - int a) < int (length base)"
        using lbase a b w by simp
      have e: "int (w - 1 + b - a) - int p = - (- (int D + int b - int a))"
        using p a b by linarith
      have "xs ! (w - 1 + b - a) = base ! reflect_index (length base) (int (w - 1 + b - a) - int p)"
        using True by (simp add: xs_def nth_append)
      also have "\<dots> = base ! nat (- (int D + int b - int a))"
        unfolding e using reflect_index_neg[OF k1 k2] by simp
      also have "\<dots> = expected ! nat (- (int D + int b - int a))"
        using k1 k2 lbase w by (intro basen) linarith
      finally show ?thesis using dneg by simp
    next
      case False
      then have dpos: "0 \<le> int D + int b - int a" using p a b by linarith
      have e: "w - 1 + b - a - p = nat (int D + int b - int a)" using False p a b by linarith
      have "xs ! (w - 1 + b - a) = base ! (w - 1 + b - a - p)"
        using False by (simp add: xs_def nth_append)
      also have "\<dots> = expected ! (w - 1 + b - a - p)"
        using p a b by (intro basen) linarith
      finally show ?thesis using dpos e by simp
    qed
    have "cells (toeplitz_about xs) ! a ! b =
             (if 0 \<le> int D + int b - int a then expected ! nat (int D + int b - int a)
              else expected ! nat (- (int D + int b - int a)))"
      using c v by (rule trans)
    then show ?thesis
      unfolding d Let_def using g toeplitz_about_shape[OF lxs w] True by auto
  next
    case nl: False
    define xs where "xs = pad_constant_left p base"
    have lxs: "length xs = 2 * w - 1" using p lbase by (simp add: xs_def pad_constant_left_def)
    have g: "get_expected_matrix (lo_left, lo_left + int w) (lo_right, lo_right + int w)
               expected local = Inr (toeplitz_about xs)"
      using nl neg pn
      by (simp add: get_expected_matrix_def Let_def D xs_def algebra_simps base_def bind_err_def)
    have c: "cells (toeplitz_about xs) ! a ! b = xs ! (w - 1 + b - a)"
      by (rule toeplitz_about_nth[OF lxs a b])
    have v: "xs ! (w - 1 + b - a) =
             (if 0 \<le> int D + int b - int a then expected ! nat (int D + int b - int a)
              else Fin 0)"
    proof (cases "w - 1 + b - a < p")
      case True
      then have dneg: "int D + int b - int a < 0" using p a b by linarith
      have "xs ! (w - 1 + b - a) = Fin 0"
        using True by (simp add: xs_def pad_constant_left_def nth_append)
      then show ?thesis using dneg by simp
    next
      case False
      then have dpos: "0 \<le> int D + int b - int a" using p a b by linarith
      have e: "w - 1 + b - a - p = nat (int D + int b - int a)" using False p a b by linarith
      have "xs ! (w - 1 + b - a) = base ! (w - 1 + b - a - p)"
        using False by (simp add: xs_def pad_constant_left_def nth_append)
      also have "\<dots> = expected ! (w - 1 + b - a - p)"
        using p a b by (intro basen) linarith
      finally show ?thesis using dpos e by simp
    qed
    have "cells (toeplitz_about xs) ! a ! b =
             (if 0 \<le> int D + int b - int a then expected ! nat (int D + int b - int a)
              else Fin 0)"
      using c v by (rule trans)
    then show ?thesis
      unfolding d Let_def using g toeplitz_about_shape[OF lxs w] nl by auto
  qed
qed

text \<open>
  C2, as stated, fails: between two overlapping intervals of a window that is not local the
  distance can be negative, and the matrix holds 0 there, not the curve at the absolute
  distance.  Windows at bins 10 and 11 with pad 2, curve \<open>10, 11, \<dots>, 15\<close>: at offset
  \<open>(4, 0)\<close> the distance is \<open>-3\<close>, the curve at 3 is 13, the matrix holds 0.
\<close>

theorem expected_matrix_negative_distance:
  "get_expected_matrix (8, 13) (9, 14) [Fin 10, Fin 11, Fin 12, Fin 13, Fin 14, Fin 15] False =
     Inr \<lparr>nrows = 5, ncols = 5,
          cells = [[Fin 11, Fin 12, Fin 13, Fin 14, Fin 15],
                   [Fin 10, Fin 11, Fin 12, Fin 13, Fin 14],
                   [Fin 0, Fin 10, Fin 11, Fin 12, Fin 13],
                   [Fin 0, Fin 0, Fin 10, Fin 11, Fin 12],
                   [Fin 0, Fin 0, Fin 0, Fin 10, Fin 11]]\<rparr> \<and>
   [[Fin 11, Fin 12, Fin 13, Fin 14, Fin 15],
    [Fin 10, Fin 11, Fin 12, Fin 13, Fin 14],
    [Fin 0, Fin 10, Fin 11, Fin 12, Fin 13],
    [Fin 0, Fin 0, Fin 10, Fin 11, Fin 12],
    [Fin 0, Fin 0, Fin 0, Fin 10, Fin 11]] ! 4 ! 0
     \<noteq> [Fin 10, Fin 11, Fin 12, Fin 13, Fin 14, Fin 15] ! nat \<bar>(9 + 0) - (8 + 4)\<bar>"
  by code_simp

text \<open>
  C2, amended: for two intervals of the same width \<open>w \<ge> 1\<close>, the left one not right of
  the right one, and a curve of at least \<open>hiRight - loLeft\<close> entries, the matrix is
  \<open>w\<close> by \<open>w\<close> and its value at \<open>(i, j)\<close> is the curve at
  \<open>d = (loRight + j) - (loLeft + i)\<close> when \<open>d \<ge> 0\<close>; when \<open>d < 0\<close> it is the curve at
  \<open>|d|\<close> for a local window (reflective padding) and 0 otherwise (zero padding).
\<close>

theorem expected_matrix_equal_widths:
  assumes "0 < w"
    and "lo_left \<le> lo_right"
    and "lo_right - lo_left + int w \<le> int (length curve)"
    and "i < w" and "j < w"
  shows "\<exists>M. get_expected_matrix (lo_left, lo_left + int w) (lo_right, lo_right + int w)
               curve loc = Inr M \<and> nrows M = w \<and> ncols M = w \<and>
             cells M ! i ! j =
               (let d = (lo_right + int j) - (lo_left + int i)
                in if 0 \<le> d then curve ! nat d
                   else if loc then curve ! nat (- d) else Fin 0)"
proof -
  define D where "D = nat (lo_right - lo_left)"
  have D: "lo_right = lo_left + int D" using assms(2) by (simp add: D_def)
  have len: "D + w \<le> length curve" using assms(2,3) by (simp add: D_def)
  show ?thesis by (rule expected_window_entry[OF assms(1) D len assms(4,5)])
qed

theorem expected_matrix_equal_widths_witness:
  "\<exists>M. get_expected_matrix (8, 8 + int 5) (9, 9 + int 5)
          [Fin 10, Fin 11, Fin 12, Fin 13, Fin 14, Fin 15] False = Inr M \<and>
        nrows M = 5 \<and> ncols M = 5 \<and> cells M ! 4 ! 0 = Fin 0"
proof -
  have h1: "(0::nat) < 5" by simp
  have h2: "(8::int) \<le> 9" by simp
  have h3: "(9::int) - 8 + int 5 \<le> int (length [Fin 10, Fin 11, Fin 12, Fin 13, Fin 14, Fin 15])"
    by simp
  have h4: "(4::nat) < 5" and h5: "(0::nat) < 5" by simp_all
  from expected_matrix_equal_widths[OF h1 h2 h3 h4 h5, of False]
  show ?thesis by (simp add: Let_def)
qed

subsection \<open>The aggregation loop (C3, C7, C8)\<close>

lemma in_distance_range_swap: "in_distance_range env e s = in_distance_range env s e"
  by (simp add: in_distance_range_def abs_minus_commute)

lemma step_skip:
  assumes "\<not> local" "\<not> in_distance_range env s e"
  shows "do_pileups_step env data pad expected local unbalanced cov_norm rescale rescale_pad
           rescale_size coverage acc (s, e, p1, p2) = Inr acc"
  using assms in_distance_range_swap[of env s e]
  by (simp add: do_pileups_step_def orient_def split: prod.splits)

lemma loop_filter:
  assumes "\<And>acc d. \<not> P d \<Longrightarrow> step acc d = Inr acc"
  shows "do_pileups_loop step acc (filter P ds) = do_pileups_loop step acc ds"
proof (induction ds arbitrary: acc)
  case Nil
  show ?case by simp
next
  case (Cons d ds)
  show ?case
  proof (cases "P d")
    case True
    then show ?thesis using Cons.IH by (simp split: sum.splits)
  next
    case False
    then show ?thesis using Cons.IH assms[OF False] by simp
  qed
qed

lemma step_pads_irrelevant:
  "do_pileups_step env data pad expected local unbalanced cov_norm False rescale_pad
     rescale_size coverage acc (s, e, p1, p2) =
   do_pileups_step env data pad expected local unbalanced cov_norm False rescale_pad
     rescale_size coverage acc (s, e, q1, q2)"
  by (simp add: do_pileups_step_def orient_def window_pads_def)

lemma loop_same_bins:
  assumes "map bins ds = map bins ds'"
    and "\<And>acc d d'. bins d = bins d' \<Longrightarrow> step acc d = step acc d'"
  shows "do_pileups_loop step acc ds = do_pileups_loop step acc ds'"
  using assms(1)
proof (induction ds arbitrary: acc ds')
  case Nil
  then show ?case by simp
next
  case (Cons d ds)
  then obtain d' rest where ds': "ds' = d' # rest" by (cases ds') auto
  with Cons.prems have b: "bins d = bins d'" and r: "map bins ds = map bins rest" by auto
  show ?case
    using assms(2)[OF b] Cons.IH[OF r] by (simp add: ds' split: sum.splits)
qed

text \<open>
  C3: a window outside \<open>mindist \<le> |endBin - stBin| * binsize < maxdist\<close>, when the run is
  not local, leaves the map, the count and both marginals as they were; hence the whole
  loop returns what it returns on the windows that pass the test alone.
\<close>

theorem distance_filter:
  "(\<not> loc \<and> \<not> in_distance_range env stBin endBin \<longrightarrow>
      do_pileups_step env data pad expected loc unbalanced cov_norm rescale rescale_pad
        rescale_size coverage acc (stBin, endBin, stPad, endPad) = Inr acc) \<and>
   do_pileups env (Inr ds) data pad expected loc unbalanced cov_norm rescale rescale_pad
     rescale_size coverage =
   do_pileups env (Inr (filter (\<lambda>d. loc \<or> in_distance_range env (fst (bins d)) (snd (bins d))) ds))
     data pad expected loc unbalanced cov_norm rescale rescale_pad rescale_size coverage"
proof (intro conjI impI)
  assume "\<not> loc \<and> \<not> in_distance_range env stBin endBin"
  then show "do_pileups_step env data pad expected loc unbalanced cov_norm rescale rescale_pad
        rescale_size coverage acc (stBin, endBin, stPad, endPad) = Inr acc"
    by (simp add: step_skip)
next
  have skip: "do_pileups_step env data pad expected loc unbalanced cov_norm rescale rescale_pad
        rescale_size coverage a d = Inr a"
    if "\<not> (loc \<or> in_distance_range env (fst (bins d)) (snd (bins d)))" for a d
    using that by (cases d) (simp add: bins_def step_skip)
  show "do_pileups env (Inr ds) data pad expected loc unbalanced cov_norm rescale rescale_pad
     rescale_size coverage =
   do_pileups env (Inr (filter (\<lambda>d. loc \<or> in_distance_range env (fst (bins d)) (snd (bins d))) ds))
     data pad expected loc unbalanced cov_norm rescale rescale_pad rescale_size coverage"
    unfolding do_pileups_def bind_err_def
    by (simp add: loop_filter[where P = "\<lambda>d. loc \<or> in_distance_range env (fst (bins d)) (snd (bins d))", OF skip]
          split: sum.splits)
qed

theorem distance_filter_witness:
  "\<not> False \<and> \<not> in_distance_range toy_env 10 12 \<and>
   do_pileups_step toy_env (Some ()) 1 None False False False False 1 41 None
     (\<lparr>nrows = 1, ncols = 1, cells = [[Fin 7]]\<rparr>, 3, [Fin 1], [Fin 2]) (10, 12, 0, 0) =
   Inr (\<lparr>nrows = 1, ncols = 1, cells = [[Fin 7]]\<rparr>, 3, [Fin 1], [Fin 2])"
proof -
  have h: "\<not> False \<and> \<not> in_distance_range toy_env 10 12"
    by (simp add: in_distance_range_def toy_env_def toy_cooler_def)
  from distance_filter[where loc = False and env = toy_env and stBin = 10 and endBin = 12
      and data = "Some ()" and pad = 1 and expected = None and unbalanced = False
      and cov_norm = False and rescale = False and rescale_pad = 1 and rescale_size = 41
      and coverage = None and stPad = 0 and endPad = 0 and ds = "[]"
      and acc = "(\<lparr>nrows = 1, ncols = 1, cells = [[Fin 7]]\<rparr>, 3, [Fin 1], [Fin 2])"]
  have "\<not> False \<and> \<not> in_distance_range toy_env 10 12 \<longrightarrow>
      do_pileups_step toy_env (Some ()) 1 None False False False False 1 41 None
        (\<lparr>nrows = 1, ncols = 1, cells = [[Fin 7]]\<rparr>, 3, [Fin 1], [Fin 2]) (10, 12, 0, 0) =
      Inr (\<lparr>nrows = 1, ncols = 1, cells = [[Fin 7]]\<rparr>, 3, [Fin 1], [Fin 2])"
    by (rule conjunct1)
  with h show ?thesis by blast
qed

lemma loop_snoc:
  "do_pileups_loop step acc (ds @ [d]) =
   bind_err (do_pileups_loop step acc ds) (\<lambda>acc'. step acc' d)"
  by (induction ds arbitrary: acc) (simp_all add: bind_err_def split: sum.splits)

lemma do_pileups_snoc:
  "do_pileups env (Inr (ds @ [d])) data pad expected loc unbalanced cov_norm rescale rescale_pad
     rescale_size coverage =
   bind_err
     (do_pileups env (Inr ds) data pad expected loc unbalanced cov_norm rescale rescale_pad
        rescale_size coverage)
     (\<lambda>acc. do_pileups_step env data pad expected loc unbalanced cov_norm rescale rescale_pad
               rescale_size coverage acc d)"
  by (simp add: do_pileups_def loop_snoc bind_err_def split: sum.splits)

lemma step_explicit:
  "do_pileups_step env data pad expected loc unbalanced cov_norm rescale rescale_pad
     rescale_size coverage acc (stBin, endBin, stPad, endPad) =
   (let s = (if stBin > endBin then endBin else stBin);
        e = (if stBin > endBin then stBin else endBin);
        ps = (if stBin > endBin then endPad else stPad);
        pe = (if stBin > endBin then stPad else endPad);
        p1 = (if rescale then ps + round_scaled env rescale_pad ps else pad);
        p2 = (if rescale then pe + round_scaled env rescale_pad pe else pad);
        left = (s - p1, s + p1 + 1);
        right = (e - p2, e + p2 + 1);
        add = (\<lambda>newmap.
                 bind_err (fit_block env rescale rescale_size (fst acc) newmap)
                   (\<lambda>newmap. add_window env (expected = None) unbalanced cov_norm rescale
                                rescale_size coverage left right newmap acc))
    in if in_distance_range env s e \<or> loc then
         (case expected of
            None \<Rightarrow>
              (case data of
                 None \<Rightarrow> Inl TypeError
               | Some d \<Rightarrow>
                   (case getitem env d left right of
                      Inl err \<Rightarrow> if err = IndexError \<or> err = ValueError then Inr acc else Inl err
                    | Inr block \<Rightarrow> add (map_array2 nan_to_num block)))
          | Some curve \<Rightarrow> bind_err (get_expected_matrix left right curve loc) add)
       else Inr acc)"
proof (cases "stBin > endBin")
  case True
  then have sw: "in_distance_range env stBin endBin = in_distance_range env endBin stBin"
    by (simp add: in_distance_range_swap)
  show ?thesis
    using True
    by (cases expected; cases data)
       (simp_all add: do_pileups_step_def orient_def window_pads_def intervals_def
          window_block_def Let_def bind_err_def split: sum.split)
next
  case False
  show ?thesis
    using False
    by (cases expected; cases data)
       (simp_all add: do_pileups_step_def orient_def window_pads_def intervals_def
          window_block_def Let_def bind_err_def split: sum.split)
qed


text \<open>
  C7: having processed the descriptors before it, the loop processes a descriptor with
  the bins \<open>s \<le> e\<close>: those of the descriptor, exchanged together with the pads when it
  arrives with \<open>stBin > endBin\<close>.  The pads, the two intervals, the distance test and the
  window read from the matrix or built from the expected curve are all those of the
  exchanged descriptor.
\<close>

theorem swap_orders_bins:
  "do_pileups env (Inr (ds @ [(stBin, endBin, stPad, endPad)])) data pad expected loc unbalanced
     cov_norm rescale rescale_pad rescale_size coverage =
   bind_err
     (do_pileups env (Inr ds) data pad expected loc unbalanced cov_norm rescale rescale_pad
        rescale_size coverage)
     (\<lambda>acc.
        let s = (if stBin > endBin then endBin else stBin);
            e = (if stBin > endBin then stBin else endBin);
            ps = (if stBin > endBin then endPad else stPad);
            pe = (if stBin > endBin then stPad else endPad);
            p1 = (if rescale then ps + round_scaled env rescale_pad ps else pad);
            p2 = (if rescale then pe + round_scaled env rescale_pad pe else pad);
            left = (s - p1, s + p1 + 1);
            right = (e - p2, e + p2 + 1);
            add = (\<lambda>newmap.
                     bind_err (fit_block env rescale rescale_size (fst acc) newmap)
                       (\<lambda>newmap. add_window env (expected = None) unbalanced cov_norm rescale
                                    rescale_size coverage left right newmap acc))
        in if in_distance_range env s e \<or> loc then
             (case expected of
                None \<Rightarrow>
                  (case data of
                     None \<Rightarrow> Inl TypeError
                   | Some d \<Rightarrow>
                       (case getitem env d left right of
                          Inl err \<Rightarrow> if err = IndexError \<or> err = ValueError then Inr acc else Inl err
                        | Inr block \<Rightarrow> add (map_array2 nan_to_num block)))
              | Some curve \<Rightarrow> bind_err (get_expected_matrix left right curve loc) add)
           else Inr acc) \<and>
   (if stBin > endBin then endBin else stBin) \<le> (if stBin > endBin then stBin else endBin)"
  unfolding do_pileups_snoc step_explicit by simp

theorem swap_orders_bins_witness:
  "do_pileups probe_env (Inr ([] @ [(12, 10, 5, 7)])) (Some ()) 1 None False False False True 1 2
     None =
   Inr (\<lparr>nrows = 2, ncols = 2, cells = [[Fin 3, Fin 18], [Fin 7, Fin 18]]\<rparr>, 1,
        [Fin 0, Fin 0], [Fin 0, Fin 0])"
proof -
  note t = swap_orders_bins[where env = probe_env and ds = "[]" and stBin = 12 and endBin = 10
      and stPad = 5 and endPad = 7 and data = "Some ()" and pad = 1 and expected = None
      and loc = False and unbalanced = False and cov_norm = False and rescale = True
      and rescale_pad = 1 and rescale_size = 2 and coverage = None]
  show ?thesis
    by (rule trans[OF conjunct1[OF t]]) code_simp
qed

text \<open>
  C8: without rescaling the loop, having processed the descriptors before it, cuts the
  window of a descriptor with the configured pad alone: the left interval is
  \<open>[s - pad, s + pad + 1)\<close> and the right one \<open>[e - pad, e + pad + 1)\<close> for the ordered
  bins \<open>s \<le> e\<close>, whatever the descriptor's pads; and two streams of descriptors with the
  same bins give the same map, count and marginals (or the same exception).
\<close>

theorem pads_overwritten_without_rescale:
  "do_pileups env (Inr (ds @ [(stBin, endBin, stPad, endPad)])) data pad expected loc unbalanced
     cov_norm False rescale_pad rescale_size coverage =
   bind_err
     (do_pileups env (Inr ds) data pad expected loc unbalanced cov_norm False rescale_pad
        rescale_size coverage)
     (\<lambda>acc.
        let s = min stBin endBin;
            e = max stBin endBin;
            left = (s - pad, s + pad + 1);
            right = (e - pad, e + pad + 1);
            add = (\<lambda>newmap.
                     bind_err (fit_block env False rescale_size (fst acc) newmap)
                       (\<lambda>newmap. add_window env (expected = None) unbalanced cov_norm False
                                    rescale_size coverage left right newmap acc))
        in if in_distance_range env s e \<or> loc then
             (case expected of
                None \<Rightarrow>
                  (case data of
                     None \<Rightarrow> Inl TypeError
                   | Some d \<Rightarrow>
                       (case getitem env d left right of
                          Inl err \<Rightarrow> if err = IndexError \<or> err = ValueError then Inr acc else Inl err
                        | Inr block \<Rightarrow> add (map_array2 nan_to_num block)))
              | Some curve \<Rightarrow> bind_err (get_expected_matrix left right curve loc) add)
           else Inr acc) \<and>
   (map bins xs = map bins ys \<longrightarrow>
      do_pileups env (Inr xs) data pad expected loc unbalanced cov_norm False rescale_pad
        rescale_size coverage =
      do_pileups env (Inr ys) data pad expected loc unbalanced cov_norm False rescale_pad
        rescale_size coverage)"
proof (intro conjI impI)
  have mm: "(if stBin > endBin then endBin else stBin) = min stBin endBin"
    "(if stBin > endBin then stBin else endBin) = max stBin endBin"
    by (simp_all add: min_def max_def)
  show "do_pileups env (Inr (ds @ [(stBin, endBin, stPad, endPad)])) data pad expected loc unbalanced
     cov_norm False rescale_pad rescale_size coverage =
   bind_err
     (do_pileups env (Inr ds) data pad expected loc unbalanced cov_norm False rescale_pad
        rescale_size coverage)
     (\<lambda>acc.
        let s = min stBin endBin;
            e = max stBin endBin;
            left = (s - pad, s + pad + 1);
            right = (e - pad, e + pad + 1);
            add = (\<lambda>newmap.
                     bind_err (fit_block env False rescale_size (fst acc) newmap)
                       (\<lambda>newmap. add_window env (expected = None) unbalanced cov_norm False
                                    rescale_size coverage left right newmap acc))
        in if in_distance_range env s e \<or> loc then
             (case expected of
                None \<Rightarrow>
                  (case data of
                     None \<Rightarrow> Inl TypeError
                   | Some d \<Rightarrow>
                       (case getitem env d left right of
                          Inl err \<Rightarrow> if err = IndexError \<or> err = ValueError then Inr acc else Inl err
                        | Inr block \<Rightarrow> add (map_array2 nan_to_num block)))
              | Some curve \<Rightarrow> bind_err (get_expected_matrix left right curve loc) add)
           else Inr acc)"
    unfolding do_pileups_snoc step_explicit mm[symmetric] by (simp add: Let_def)
next
  assume same: "map bins xs = map bins ys"
  have step: "do_pileups_step env data pad expected loc unbalanced cov_norm False rescale_pad
        rescale_size coverage a x =
      do_pileups_step env data pad expected loc unbalanced cov_norm False rescale_pad
        rescale_size coverage a y" if "bins x = bins y" for a x y
  proof -
    obtain s e p1 p2 where x: "x = (s, e, p1, p2)" by (cases x) auto
    obtain s' e' q1 q2 where y: "y = (s', e', q1, q2)" by (cases y) auto
    from that have "s' = s" "e' = e" by (simp_all add: bins_def x y)
    then show ?thesis
      unfolding x y by (simp add: step_pads_irrelevant[where ?p1.0 = p1 and ?p2.0 = p2 and ?q1.0 = q1 and ?q2.0 = q2])
  qed
  show "do_pileups env (Inr xs) data pad expected loc unbalanced cov_norm False rescale_pad
        rescale_size coverage =
      do_pileups env (Inr ys) data pad expected loc unbalanced cov_norm False rescale_pad
        rescale_size coverage"
    unfolding do_pileups_def bind_err_def
    by (simp add: loop_same_bins[OF same step] split: sum.splits)
qed

theorem pads_overwritten_without_rescale_witness:
  "do_pileups probe_env (Inr ([] @ [(12, 10, 5, 7)])) (Some ()) 1 None False False False False 1 2
     None =
   Inr (\<lparr>nrows = 3, ncols = 3,
         cells = [[Fin 0, Fin 0, Fin 0], [Fin 9, Fin 12, Fin 0], [Fin 11, Fin 14, Fin 0]]\<rparr>, 1,
        [Fin 0, Fin 0, Fin 0], [Fin 0, Fin 0, Fin 0]) \<and>
   do_pileups probe_env (Inr [(10, 30, 0, 0), (40, 5, 1, 1)]) (Some ()) 1 None False False False
     False 1 2 None =
   do_pileups probe_env (Inr [(10, 30, 7, 9), (40, 5, 2, 3)]) (Some ()) 1 None False False False
     False 1 2 None"
proof -
  note t = pads_overwritten_without_rescale[where env = probe_env and ds = "[]" and stBin = 12
      and endBin = 10 and stPad = 5 and endPad = 7 and data = "Some ()" and pad = 1
      and expected = None and loc = False and unbalanced = False and cov_norm = False
      and rescale_pad = 1 and rescale_size = 2 and coverage = None
      and xs = "[(10, 30, 0, 0), (40, 5, 1, 1)]" and ys = "[(10, 30, 7, 9), (40, 5, 2, 3)]"]
  have a: "do_pileups probe_env (Inr ([] @ [(12, 10, 5, 7)])) (Some ()) 1 None False False False
      False 1 2 None =
    Inr (\<lparr>nrows = 3, ncols = 3,
          cells = [[Fin 0, Fin 0, Fin 0], [Fin 9, Fin 12, Fin 0], [Fin 11, Fin 14, Fin 0]]\<rparr>, 1,
         [Fin 0, Fin 0, Fin 0], [Fin 0, Fin 0, Fin 0])"
    by (rule trans[OF conjunct1[OF t]]) code_simp
  have h: "map bins [(10, 30, 0, 0), (40, 5, 1, 1)] = map bins [(10, 30, 7, 9), (40, 5, 2, 3)]"
    by (simp add: bins_def)
  have b: "do_pileups probe_env (Inr [(10, 30, 0, 0), (40, 5, 1, 1)]) (Some ()) 1 None False False
      False False 1 2 None =
    do_pileups probe_env (Inr [(10, 30, 7, 9), (40, 5, 2, 3)]) (Some ()) 1 None False False False
      False 1 2 None"
    by (rule mp[OF conjunct2[OF t] h])
  from a b show ?thesis by (rule conjI)
qed

subsection \<open>One chromosome (C5, C10)\<close>

text \<open>
  C10: a chromosome whose loci table has fewer than two rows, single loci or pairs alike,
  returns the zero map of the canonical side, count 0 and zero marginals, and its trace
  is empty: the matrix is not fetched.  The side must be one \<open>np.zeros\<close> accepts.
\<close>

theorem short_table_returns_zero_map:
  assumes "len_table mids < 2"
    and "side = (if rescale then rescale_size else 2 * pad + 1)"
    and "0 \<le> side"
  shows "pileups env (chrom, mids) c pad ctrl loc minshift maxshift nshifts expected combinations
           anchor unbalanced cov_norm rescale rescale_pad rescale_size draws =
         ([], Inr (\<lparr>nrows = nat side, ncols = nat side,
                     cells = replicate (nat side) (replicate (nat side) (Fin 0))\<rparr>,
                   0, replicate (nat side) (Fin 0), replicate (nat side) (Fin 0)))"
  using assms by (cases rescale) (simp_all add: pileups_def make_outmap_def zeros2_def)

theorem short_table_returns_zero_map_witness:
  "pileups toy_env
     (''chr1'', LociPairs [\<lparr>chr1 = ''chr1'', Mids1 = 10500, Pad1 = 500,
                              chr2 = ''chr1'', Mids2 = 30500, Pad2 = 500\<rparr>])
     toy_cooler 1 False False 100000 1000000 1 None False None False False False 1 41
     (\<lambda>k. (100, 1 / 4)) =
   ([], Inr (\<lparr>nrows = 3, ncols = 3, cells = replicate 3 (replicate 3 (Fin 0))\<rparr>,
             0, replicate 3 (Fin 0), replicate 3 (Fin 0)))"
proof -
  have h1: "len_table (LociPairs [\<lparr>chr1 = ''chr1'', Mids1 = 10500, Pad1 = 500,
                              chr2 = ''chr1'', Mids2 = 30500, Pad2 = 500\<rparr>]) < 2" by simp
  have h2: "(3::int) = (if False then 41 else 2 * 1 + 1)" by simp
  have h3: "(0::int) \<le> 3" by simp
  from short_table_returns_zero_map[OF h1 h2 h3]
  show ?thesis by simp
qed

text \<open>
  A task of the observed pass on a chromosome with at least two rows fetches the matrix,
  whatever its flags and whatever becomes of the windows; and \<open>get_combinations\<close> in
  local mode with an anchor yields nothing but its ValueError.
\<close>

lemma task_fetches_before_windows:
  assumes "make_outmap pad rescale rescale_size = Inr m" and "1 < len_table mids"
  shows "fst (pileups env (chrom, mids) c pad ctrl loc minshift maxshift nshifts None combinations
                anchor unbalanced cov_norm rescale rescale_pad rescale_size draws) =
         [Fetch chrom (\<not> unbalanced)]"
  using assms by (simp add: pileups_def get_data_def split: sum.splits prod.splits)

lemma get_combinations_local_anchor:
  "get_combinations rows res True (Some a) = Inl ValueError"
  by (simp add: get_combinations_def)

text \<open>
  C5: with local mode and an anchor both set, on a chromosome with two loci, the
  ValueError of \<open>get_combinations\<close> is raised only when the loop asks the generator for
  its first item: the trace shows the fetch of the chromosome's matrix before it.
\<close>

theorem local_with_anchor_fetches_first:
  "pileups toy_env (''chr1'', Loci toy_loci) toy_cooler 1 False True 100000 1000000 1 None True
     (Some (''chr1'', 1000, 2000)) False False False 1 41 (\<lambda>k. (100, 1 / 4)) =
   ([Fetch ''chr1'' True], Inl ValueError) \<and>
   pileups toy_env (''chr1'', Loci [\<lparr>chr = ''chr1'', Mids = 10500, Pad = 500\<rparr>]) toy_cooler 1 False
     True 100000 1000000 1 None True (Some (''chr1'', 1000, 2000)) False False False 1 41
     (\<lambda>k. (100, 1 / 4)) =
   ([], Inr (\<lparr>nrows = 3, ncols = 3,
               cells = [[Fin 0, Fin 0, Fin 0], [Fin 0, Fin 0, Fin 0], [Fin 0, Fin 0, Fin 0]]\<rparr>,
             0, [Fin 0, Fin 0, Fin 0], [Fin 0, Fin 0, Fin 0]))"
  by (simp add: pileups_def make_outmap_def zeros2_def toy_loci_def get_data_def toy_cooler_def
        bind_err_def window_generator_def get_combinations_def do_pileups_def numeral_eq_Suc)


subsection \<open>Randomly shifted controls (C4)\<close>

lemma shifted_simp: "shifted (s, e, p1, p2) k = (s + k, e + k, p1, p2)"
  by (simp add: shifted_def)

lemma shift_by_magnitude: "u \<noteq> 1 / 2 \<Longrightarrow> \<bar>shift_by (m, u)\<bar> = \<bar>m\<bar>"
proof -
  have f: "\<lfloor>- 1 :: rat\<rfloor> = - 1" by (simp add: floor_eq_iff)
  show "u \<noteq> 1 / 2 \<Longrightarrow> \<bar>shift_by (m, u)\<bar> = \<bar>m\<bar>"
    by (cases "u < 1 / 2") (auto simp: shift_by_def sgn_if abs_mult f)
qed

lemma shift_by_half: "shift_by (m, 1 / 2) = 0"
  by (simp add: shift_by_def)

lemma control_windows_length: "length (control_windows draws k n ds) = n * length ds"
  by (induction ds arbitrary: k) simp_all

lemma control_windows_nth:
  assumes "a < length ds" "i < n"
  shows "control_windows draws k n ds ! (a * n + i) = shifted (ds ! a) (shift_by (draws (k + a * n + i)))"
  using assms
proof (induction ds arbitrary: k a)
  case Nil
  then show ?case by simp
next
  case (Cons d ds)
  show ?case
  proof (cases a)
    case 0
    then show ?thesis using Cons.prems by (simp add: nth_append)
  next
    case (Suc a')
    then have a': "a' < length ds" using Cons.prems by simp
    have "control_windows draws k n (d # ds) ! (a * n + i) =
          control_windows draws (k + n) n ds ! (a' * n + i)"
      using Suc by (simp add: nth_append add.assoc)
    also have "\<dots> = shifted (ds ! a') (shift_by (draws (k + n + a' * n + i)))"
      by (rule Cons.IH[OF a' Cons.prems(2)])
    finally show ?thesis using Suc by (simp add: add.assoc)
  qed
qed

text \<open>
  What holds of the control shifter: with a bin size that is not zero and a range of shifts
  that is not empty, it yields \<open>nshifts\<close> windows per descriptor, and the \<open>i\<close>-th control
  of the \<open>a\<close>-th descriptor is that descriptor with both bins moved by the same amount
  and the pads kept; the amount has the magnitude of the draw unless \<open>u = 1/2\<close>.
\<close>

lemma controlRegions_yields:
  assumes "res \<noteq> 0" "minshift div res < maxshift div res" "0 \<le> nshifts"
  shows "controlRegions (Inr ds) res minshift maxshift nshifts draws =
           Inr (control_windows draws 0 (nat nshifts) ds) \<and>
         length (control_windows draws 0 (nat nshifts) ds) = nat nshifts * length ds"
  using assms by (simp add: controlRegions_def Let_def bind_err_def control_windows_length)

lemma control_window_is_shift:
  assumes "a < length ds" and "i < n" and "ds ! a = (s, e, p1, p2)"
    and "k = shift_by (draws (a * n + i))"
  shows "control_windows draws 0 n ds ! (a * n + i) = (s + k, e + k, p1, p2)"
  using control_windows_nth[OF assms(1,2), of draws 0] assms(3,4) by (simp add: shifted_simp)

text \<open>
  C4: the shift magnitude should lie in \<open>[minshift // res, maxshift // res)\<close>.  The sign
  is \<open>np.sign(u - 0.5)\<close>, which is 0 when the draw \<open>u\<close> is exactly 0.5: with the default
  range and bins of 10000 base pairs the magnitude drawn is 10, in \<open>[10, 100)\<close>, and the
  control window is the window itself, shifted by 0.
\<close>

theorem zero_sign_gives_zero_shift:
  "controlRegions (Inr [(100, 200, 3, 3)]) 10000 100000 1000000 1 (\<lambda>k. (10, 1 / 2)) =
     Inr [(100, 200, 3, 3)]"
  by (simp add: controlRegions_def Let_def bind_err_def shifted_def shift_by_def)

subsection \<open>The genome-wide map (C1, C9)\<close>

text \<open>
  C1, as stated, fails: the division of the observed map by the control map is numpy's
  plain division.  One chromosome, one window, observed and control both 0 at the only
  cell: the final map holds NaN there.  And \<open>norm_coverage\<close> itself returns an infinity
  where the coverage is 0 and the map is not.
\<close>

theorem final_map_holds_nan:
  "pileupsWithControl_over
     (same_results [(\<lparr>nrows = 1, ncols = 1, cells = [[Fin 0]]\<rparr>, 1, [Fin 0], [Fin 0])])
     False 1 None =
   ([], Inr \<lparr>nrows = 1, ncols = 1, cells = [[NaN]]\<rparr>) \<and>
   norm_coverage \<lparr>nrows = 2, ncols = 2, cells = [[Fin 3, Fin 0], [Fin 0, Fin 4]]\<rparr>
     [Fin 1, Fin 0] [Fin 1, Fin 0] =
   Inr \<lparr>nrows = 2, ncols = 2, cells = [[Fin (3 / 4), Fin 0], [Fin 0, PInf]]\<rparr>"
  by code_simp

lemma wf_row: "wf_array2 A \<Longrightarrow> i < nrows A \<Longrightarrow> length (cells A ! i) = ncols A"
  by (simp add: wf_array2_def list_all_length)

lemma broadcast2_same_shape:
  assumes "wf_array2 B" "nrows B = h" "ncols B = w"
  shows "broadcast2 h w B = Inr \<lparr>nrows = h, ncols = w, cells = cells B\<rparr>"
proof -
  have len: "length (cells B) = h" using assms by (simp add: wf_array2_def)
  have row: "map (\<lambda>j. cells B ! (if nrows B = 1 then 0 else i) ! (if ncols B = 1 then 0 else j)) [0..<w]
             = cells B ! i" if "i < h" for i
  proof (rule nth_equalityI)
    show "length (map (\<lambda>j. cells B ! (if nrows B = 1 then 0 else i) ! (if ncols B = 1 then 0 else j)) [0..<w])
          = length (cells B ! i)"
      using wf_row[OF assms(1)] that assms by simp
  next
    fix j
    assume "j < length (map (\<lambda>j. cells B ! (if nrows B = 1 then 0 else i) ! (if ncols B = 1 then 0 else j)) [0..<w])"
    then have j: "j < w" by simp
    have i0: "nrows B = Suc 0 \<Longrightarrow> i = 0" using that assms by auto
    have j0: "ncols B = Suc 0 \<Longrightarrow> j = 0" using j assms by auto
    show "map (\<lambda>j. cells B ! (if nrows B = 1 then 0 else i) ! (if ncols B = 1 then 0 else j)) [0..<w] ! j
          = cells B ! i ! j"
      using j i0 j0 by auto
  qed
  have "map (\<lambda>i. map (\<lambda>j. cells B ! (if nrows B = 1 then 0 else i) ! (if ncols B = 1 then 0 else j)) [0..<w]) [0..<h]
        = cells B"
  proof (rule nth_equalityI)
    show "length (map (\<lambda>i. map (\<lambda>j. cells B ! (if nrows B = 1 then 0 else i) ! (if ncols B = 1 then 0 else j)) [0..<w]) [0..<h])
          = length (cells B)" using len by simp
  next
    fix i
    assume "i < length (map (\<lambda>i. map (\<lambda>j. cells B ! (if nrows B = 1 then 0 else i) ! (if ncols B = 1 then 0 else j)) [0..<w]) [0..<h])"
    then have "i < h" by simp
    then show "map (\<lambda>i. map (\<lambda>j. cells B ! (if nrows B = 1 then 0 else i) ! (if ncols B = 1 then 0 else j)) [0..<w]) [0..<h] ! i
               = cells B ! i"
      using row by simp
  qed
  then show ?thesis using assms by (simp add: broadcast2_def)
qed

lemma inplace2_same_shape:
  assumes "wf_array2 B" "shape B = shape A"
  shows "inplace2 f A B =
         Inr \<lparr>nrows = nrows A, ncols = ncols A, cells = map2 (map2 f) (cells A) (cells B)\<rparr>"
proof -
  have "nrows B = nrows A" "ncols B = ncols A" using assms(2) by (simp_all add: shape_def)
  then show ?thesis
    using broadcast2_same_shape[OF assms(1), of "nrows A" "ncols A"]
    by (simp add: inplace2_def bind_err_def)
qed

lemma map2_map2_cell:
  assumes "wf_array2 A" "wf_array2 B" "shape B = shape A" "i < nrows A" "j < ncols A"
  shows "map2 (map2 f) (cells A) (cells B) ! i ! j = f (cells A ! i ! j) (cells B ! i ! j)"
proof -
  have s: "nrows B = nrows A" "ncols B = ncols A" using assms(3) by (simp_all add: shape_def)
  have la: "length (cells A) = nrows A" and lb: "length (cells B) = nrows A"
    using assms(1,2) s by (simp_all add: wf_array2_def)
  have ra: "length (cells A ! i) = ncols A" using wf_row[OF assms(1,4)] .
  have rb: "length (cells B ! i) = ncols A" using wf_row[OF assms(2), of i] assms(4) s by simp
  show ?thesis using assms(4,5) la lb ra rb by simp
qed

lemma outer_cell:
  "i < length xs \<Longrightarrow> j < length ys \<Longrightarrow> cells (outer xs ys) ! i ! j = fmul (xs ! i) (ys ! j)"
  by (simp add: outer_def)

lemma wf_outer: "wf_array2 (outer xs ys)"
  by (simp add: wf_array2_def outer_def list_all_iff)

lemma wf_map_array2: "wf_array2 A \<Longrightarrow> wf_array2 (map_array2 g A)"
  by (simp add: wf_array2_def map_array2_def list_all_iff)

lemma map_array2_cell:
  "wf_array2 A \<Longrightarrow> i < nrows A \<Longrightarrow> j < ncols A \<Longrightarrow>
   cells (map_array2 g A) ! i ! j = g (cells A ! i ! j)"
  using wf_row[of A i] by (simp add: map_array2_def wf_array2_def)

lemma norm_coverage_cell:
  assumes "wf_array2 A" "length cs = nrows A" "length ce = ncols A" "i < nrows A" "j < ncols A"
  shows "\<exists>M. norm_coverage A cs ce = Inr M \<and> shape M = shape A \<and>
             cells M ! i ! j =
               (let q = fdiv (cells A ! i ! j)
                             (fdiv (fmul (cs ! i) (ce ! j)) (nanmean (outer cs ce)))
                in if isnan q then Fin 0 else q) \<and>
             list_all (list_all (\<lambda>x. \<not> isnan x)) (cells M)"
proof -
  define C where "C = map_array2 (\<lambda>x. fdiv x (nanmean (outer cs ce))) (outer cs ce)"
  define Q where "Q = \<lparr>nrows = nrows A, ncols = ncols A, cells = map2 (map2 fdiv) (cells A) (cells C)\<rparr>"
  have wfC: "wf_array2 C" by (simp add: C_def wf_map_array2 wf_outer)
  have shC: "shape C = shape A"
    using assms(2,3) by (simp add: C_def shape_def map_array2_def outer_def)
  have q: "inplace2 fdiv A C = Inr Q"
    unfolding Q_def by (rule inplace2_same_shape[OF wfC shC])
  have nc: "norm_coverage A cs ce = Inr (map_array2 (\<lambda>x. if isnan x then Fin 0 else x) Q)"
    using q by (simp add: norm_coverage_def Let_def C_def bind_err_def)
  have wfQ: "wf_array2 Q"
    using assms(1) wfC shC
    by (auto simp: Q_def wf_array2_def shape_def list_all_length)
  have cC: "cells C ! i ! j = fdiv (fmul (cs ! i) (ce ! j)) (nanmean (outer cs ce))"
    using assms(2-5) wf_outer[of cs ce]
    by (simp add: C_def map_array2_cell outer_cell outer_def)
  have cQ: "cells Q ! i ! j = fdiv (cells A ! i ! j) (cells C ! i ! j)"
    using map2_map2_cell[OF assms(1) wfC shC assms(4,5)] by (simp add: Q_def)
  have cM: "cells (map_array2 (\<lambda>x. if isnan x then Fin 0 else x) Q) ! i ! j =
            (if isnan (cells Q ! i ! j) then Fin 0 else cells Q ! i ! j)"
    using assms(4,5) by (intro map_array2_cell[OF wfQ]) (simp_all add: Q_def)
  have nn: "list_all (list_all (\<lambda>x. \<not> isnan x)) (cells (map_array2 (\<lambda>x. if isnan x then Fin 0 else x) Q))"
    by (auto simp: map_array2_def list_all_iff)
  show ?thesis
    using nc cM cQ cC nn by (simp add: Let_def shape_def map_array2_def Q_def)
qed

lemma final_division_cell:
  assumes "wf_array2 A" "wf_array2 B" "shape B = shape A" "i < nrows A" "j < ncols A"
  shows "\<exists>F. inplace2 fdiv A B = Inr F \<and> shape F = shape A \<and>
             cells F ! i ! j = fdiv (cells A ! i ! j) (cells B ! i ! j)"
  using inplace2_same_shape[OF assms(2,3), of fdiv] map2_map2_cell[OF assms, of fdiv]
  by (simp add: shape_def)


text \<open>
  C1, amended.  Every division of the Normalizer is numpy's plain elementwise division,
  and only the one of the coverage normalization is followed by setting NaN to 0:
  \<^item> each cell of the map \<open>norm_coverage\<close> returns is the cell of the input map divided
    by the product of the two marginals over their \<open>nanmean\<close>, with NaN (hence \<open>0/0\<close>)
    replaced by 0, so that map holds no NaN; an infinity stays;
  \<^item> each cell of the final map is the cell of the averaged observed map divided by the
    cell of the averaged control map (or, with an expected table and no shifts, of the
    averaged expected map): NaN where both are 0, an infinity where only the divisor is 0;
  \<^item> the average of a pass is its sum divided by its window count, cell by cell.
\<close>

theorem normalizer_divisions:
  assumes "wf_array2 A" and "wf_array2 B" and "shape B = shape A"
    and "i < nrows A" and "j < ncols A"
  shows
    "(length cs = nrows A \<and> length ce = ncols A \<longrightarrow>
        (\<exists>M. norm_coverage A cs ce = Inr M \<and> shape M = shape A \<and>
              cells M ! i ! j =
                (let q = fdiv (cells A ! i ! j)
                              (fdiv (fmul (cs ! i) (ce ! j)) (nanmean (outer cs ce)))
                 in if isnan q then Fin 0 else q) \<and>
              list_all (list_all (\<lambda>x. \<not> isnan x)) (cells M))) \<and>
     (0 < nshifts \<and> snd (pmap False None) = Inr obs \<and> combine_pass cov_norm obs = Inr A \<and>
      snd (pmap True None) = Inr ctrls \<and> combine_pass cov_norm ctrls = Inr B \<longrightarrow>
        (\<exists>F. snd (pileupsWithControl_over pmap cov_norm nshifts expected) = Inr F \<and>
              shape F = shape A \<and>
              cells F ! i ! j = fdiv (cells A ! i ! j) (cells B ! i ! j) \<and>
              (cells A ! i ! j = Fin 0 \<and> cells B ! i ! j = Fin 0 \<longrightarrow> cells F ! i ! j = NaN) \<and>
              (\<forall>a. cells A ! i ! j = Fin a \<and> a \<noteq> 0 \<and> cells B ! i ! j = Fin 0 \<longrightarrow>
                   cells F ! i ! j = (if 0 < a then PInf else NInf)))) \<and>
     (\<not> 0 < nshifts \<and> expected = Some table \<and> snd (pmap False None) = Inr obs \<and>
      combine_pass cov_norm obs = Inr A \<and>
      snd (pmap False (Some table)) = Inr exps \<and> combine_pass False exps = Inr B \<longrightarrow>
        (\<exists>F. snd (pileupsWithControl_over pmap cov_norm nshifts expected) = Inr F \<and>
              shape F = shape A \<and>
              cells F ! i ! j = fdiv (cells A ! i ! j) (cells B ! i ! j) \<and>
              (cells A ! i ! j = Fin 0 \<and> cells B ! i ! j = Fin 0 \<longrightarrow> cells F ! i ! j = NaN) \<and>
              (\<forall>a. cells A ! i ! j = Fin a \<and> a \<noteq> 0 \<and> cells B ! i ! j = Fin 0 \<longrightarrow>
                   cells F ! i ! j = (if 0 < a then PInf else NInf)))) \<and>
     combine_pass False rs =
       bind_err (sum_arrays2 (map fst rs))
         (\<lambda>total. Inr (map_array2
                          (\<lambda>x. fdiv x (Fin (of_int (sum_list (map (\<lambda>r. fst (snd r)) rs))))) total))"
proof (intro conjI impI)
  assume "length cs = nrows A \<and> length ce = ncols A"
  then show "\<exists>M. norm_coverage A cs ce = Inr M \<and> shape M = shape A \<and>
              cells M ! i ! j =
                (let q = fdiv (cells A ! i ! j)
                              (fdiv (fmul (cs ! i) (ce ! j)) (nanmean (outer cs ce)))
                 in if isnan q then Fin 0 else q) \<and>
              list_all (list_all (\<lambda>x. \<not> isnan x)) (cells M)"
    using norm_coverage_cell[OF assms(1) _ _ assms(4,5), of cs ce] by blast
next
  assume h: "0 < nshifts \<and> snd (pmap False None) = Inr obs \<and> combine_pass cov_norm obs = Inr A \<and>
      snd (pmap True None) = Inr ctrls \<and> combine_pass cov_norm ctrls = Inr B"
  from final_division_cell[OF assms] obtain F where
    F: "inplace2 fdiv A B = Inr F" "shape F = shape A"
       "cells F ! i ! j = fdiv (cells A ! i ! j) (cells B ! i ! j)" by blast
  have "snd (pileupsWithControl_over pmap cov_norm nshifts expected) = Inr F"
    using h F(1) by (simp add: pileupsWithControl_over_def case_prod_beta bind_err_def)
  then show "\<exists>F. snd (pileupsWithControl_over pmap cov_norm nshifts expected) = Inr F \<and>
              shape F = shape A \<and>
              cells F ! i ! j = fdiv (cells A ! i ! j) (cells B ! i ! j) \<and>
              (cells A ! i ! j = Fin 0 \<and> cells B ! i ! j = Fin 0 \<longrightarrow> cells F ! i ! j = NaN) \<and>
              (\<forall>a. cells A ! i ! j = Fin a \<and> a \<noteq> 0 \<and> cells B ! i ! j = Fin 0 \<longrightarrow>
                   cells F ! i ! j = (if 0 < a then PInf else NInf))"
    using F(2,3) by auto
next
  assume h: "\<not> 0 < nshifts \<and> expected = Some table \<and> snd (pmap False None) = Inr obs \<and>
      combine_pass cov_norm obs = Inr A \<and>
      snd (pmap False (Some table)) = Inr exps \<and> combine_pass False exps = Inr B"
  from final_division_cell[OF assms] obtain F where
    F: "inplace2 fdiv A B = Inr F" "shape F = shape A"
       "cells F ! i ! j = fdiv (cells A ! i ! j) (cells B ! i ! j)" by blast
  have "snd (pileupsWithControl_over pmap cov_norm nshifts expected) = Inr F"
    using h F(1) by (simp add: pileupsWithControl_over_def case_prod_beta bind_err_def)
  then show "\<exists>F. snd (pileupsWithControl_over pmap cov_norm nshifts expected) = Inr F \<and>
              shape F = shape A \<and>
              cells F ! i ! j = fdiv (cells A ! i ! j) (cells B ! i ! j) \<and>
              (cells A ! i ! j = Fin 0 \<and> cells B ! i ! j = Fin 0 \<longrightarrow> cells F ! i ! j = NaN) \<and>
              (\<forall>a. cells A ! i ! j = Fin a \<and> a \<noteq> 0 \<and> cells B ! i ! j = Fin 0 \<longrightarrow>
                   cells F ! i ! j = (if 0 < a then PInf else NInf))"
    using F(2,3) by auto
next
  have m: "map (\<lambda>(m, n, cs, ce). m) rs = map fst rs"
    by (simp add: split_def)
  have n: "map (\<lambda>(m, n, cs, ce). n) rs = map (\<lambda>r. fst (snd r)) rs"
    by (simp add: split_def)
  show "combine_pass False rs =
       bind_err (sum_arrays2 (map fst rs))
         (\<lambda>total. Inr (map_array2
                          (\<lambda>x. fdiv x (Fin (of_int (sum_list (map (\<lambda>r. fst (snd r)) rs))))) total))"
    unfolding combine_pass_def Let_def m n
    by (simp add: bind_err_def split: sum.splits)
qed

theorem normalizer_divisions_witness:
  "\<exists>F. snd (pileupsWithControl_over
               (two_results [(\<lparr>nrows = 1, ncols = 1, cells = [[Fin 2]]\<rparr>, 2, [Fin 1], [Fin 1])]
                            [(\<lparr>nrows = 1, ncols = 1, cells = [[Fin 0]]\<rparr>, 3, [Fin 1], [Fin 1])])
               False 1 None) = Inr F \<and>
        cells F ! 0 ! 0 = PInf"
proof -
  define A :: "fval array2" where "A = \<lparr>nrows = 1, ncols = 1, cells = [[Fin 1]]\<rparr>"
  define B :: "fval array2" where "B = \<lparr>nrows = 1, ncols = 1, cells = [[Fin 0]]\<rparr>"
  define obs :: "pile list" where
    "obs = [(\<lparr>nrows = 1, ncols = 1, cells = [[Fin 2]]\<rparr>, 2, [Fin 1], [Fin 1])]"
  define ctrls :: "pile list" where
    "ctrls = [(\<lparr>nrows = 1, ncols = 1, cells = [[Fin 0]]\<rparr>, 3, [Fin 1], [Fin 1])]"
  have h1: "wf_array2 A" and h2: "wf_array2 B" and h3: "shape B = shape A"
    and h4: "0 < nrows A" and h5: "0 < ncols A"
    by (simp_all add: A_def B_def wf_array2_def shape_def)
  have p: "(0::int) < 1 \<and> snd (two_results obs ctrls False None) = Inr obs \<and>
           combine_pass False obs = Inr A \<and>
           snd (two_results obs ctrls True None) = Inr ctrls \<and> combine_pass False ctrls = Inr B"
    by (simp add: two_results_def combine_pass_def obs_def ctrls_def A_def B_def bind_err_def
          map_array2_def)
  from normalizer_divisions[OF h1 h2 h3 h4 h5, where pmap = "two_results obs ctrls"
      and nshifts = 1 and obs = obs and ctrls = ctrls and cov_norm = False and expected = None]
  have "(0::int) < 1 \<and> snd (two_results obs ctrls False None) = Inr obs \<and>
        combine_pass False obs = Inr A \<and>
        snd (two_results obs ctrls True None) = Inr ctrls \<and> combine_pass False ctrls = Inr B \<longrightarrow>
        (\<exists>F. snd (pileupsWithControl_over (two_results obs ctrls) False 1 None) = Inr F \<and>
              shape F = shape A \<and>
              cells F ! 0 ! 0 = fdiv (cells A ! 0 ! 0) (cells B ! 0 ! 0) \<and>
              (cells A ! 0 ! 0 = Fin 0 \<and> cells B ! 0 ! 0 = Fin 0 \<longrightarrow> cells F ! 0 ! 0 = NaN) \<and>
              (\<forall>a. cells A ! 0 ! 0 = Fin a \<and> a \<noteq> 0 \<and> cells B ! 0 ! 0 = Fin 0 \<longrightarrow>
                   cells F ! 0 ! 0 = (if 0 < a then PInf else NInf)))"
    by blast
  with p obtain F where
    "snd (pileupsWithControl_over (two_results obs ctrls) False 1 None) = Inr F"
    "cells F ! 0 ! 0 = fdiv (cells A ! 0 ! 0) (cells B ! 0 ! 0)" by blast
  then show ?thesis
    unfolding obs_def ctrls_def by (auto simp: A_def B_def)
qed

lemma combine_pass_cov_end:
  assumes "map without_cov_end rs = map without_cov_end rs'"
  shows "combine_pass cov_norm rs = combine_pass cov_norm rs'"
proof -
  have m: "map (\<lambda>(m, n, cs, ce). m) xs = map (\<lambda>t. fst t) (map without_cov_end xs)" for xs :: "pile list"
    by (simp add: without_cov_end_def split_def)
  have n: "map (\<lambda>(m, n, cs, ce). n) xs = map (\<lambda>t. fst (snd t)) (map without_cov_end xs)" for xs :: "pile list"
    by (simp add: without_cov_end_def split_def)
  have c: "map (\<lambda>(m, n, cs, ce). cs) xs = map (\<lambda>t. snd (snd t)) (map without_cov_end xs)" for xs :: "pile list"
    by (simp add: without_cov_end_def split_def)
  show ?thesis
    unfolding combine_pass_def Let_def m n c assms ..
qed

lemma bind_combine_cov_end:
  assumes "map_sum id (map without_cov_end) r = map_sum id (map without_cov_end) r'"
  shows "bind_err r (combine_pass cov_norm) = bind_err r' (combine_pass cov_norm)"
  using assms
  by (cases r; cases r') (auto simp: bind_err_def intro: combine_pass_cov_end)

lemma bind_err_assoc: "bind_err (bind_err r f) g = bind_err r (\<lambda>x. bind_err (f x) g)"
  by (cases r) (simp_all add: bind_err_def)

text \<open>
  C9: with coverage normalization a pass hands \<open>norm_coverage\<close> the sum of the tasks'
  \<open>cov_start\<close> arrays as both marginals, and the final map and trace do not depend on the
  \<open>cov_end\<close> arrays the tasks return, in any pass.
\<close>

theorem cov_end_never_used:
  "combine_pass True rs =
     bind_err (sum_arrays2 (map fst rs))
       (\<lambda>loop. bind_err (sum_arrays1 (map (\<lambda>r. fst (snd (snd r))) rs))
          (\<lambda>cov_start. bind_err (norm_coverage loop cov_start cov_start)
             (\<lambda>loop. Inr (map_array2
                            (\<lambda>x. fdiv x (Fin (of_int (sum_list (map (\<lambda>r. fst (snd r)) rs))))) loop)))) \<and>
   ((\<forall>ctrl e. fst (pmap' ctrl e) = fst (pmap ctrl e) \<and>
              map_sum id (map without_cov_end) (snd (pmap' ctrl e)) =
              map_sum id (map without_cov_end) (snd (pmap ctrl e))) \<longrightarrow>
    pileupsWithControl_over pmap' cov_norm nshifts expected =
    pileupsWithControl_over pmap cov_norm nshifts expected)"
proof (intro conjI impI)
  have m: "map (\<lambda>(m, n, cs, ce). m) rs = map fst rs"
    by (simp add: split_def)
  have n: "map (\<lambda>(m, n, cs, ce). n) rs = map (\<lambda>r. fst (snd r)) rs"
    by (simp add: split_def)
  have c: "map (\<lambda>(m, n, cs, ce). cs) rs = map (\<lambda>r. fst (snd (snd r))) rs"
    by (simp add: split_def)
  show "combine_pass True rs =
     bind_err (sum_arrays2 (map fst rs))
       (\<lambda>loop. bind_err (sum_arrays1 (map (\<lambda>r. fst (snd (snd r))) rs))
          (\<lambda>cov_start. bind_err (norm_coverage loop cov_start cov_start)
             (\<lambda>loop. Inr (map_array2
                            (\<lambda>x. fdiv x (Fin (of_int (sum_list (map (\<lambda>r. fst (snd r)) rs))))) loop))))"
    unfolding combine_pass_def Let_def m n c
    by (auto simp: bind_err_def split: sum.splits)
next
  assume agree: "\<forall>ctrl e. fst (pmap' ctrl e) = fst (pmap ctrl e) \<and>
              map_sum id (map without_cov_end) (snd (pmap' ctrl e)) =
              map_sum id (map without_cov_end) (snd (pmap ctrl e))"
  have t: "fst (pmap' ctrl e) = fst (pmap ctrl e)" for ctrl e using agree by blast
  have r: "bind_err (snd (pmap' ctrl e)) (combine_pass cn) =
           bind_err (snd (pmap ctrl e)) (combine_pass cn)" for ctrl e cn
    using agree by (intro bind_combine_cov_end) blast
  have over: "pileupsWithControl_over q cov_norm nshifts expected =
    (case bind_err (snd (q False None)) (combine_pass cov_norm) of
       Inl e \<Rightarrow> (fst (q False None), Inl e)
     | Inr loop \<Rightarrow>
         if nshifts > 0 then
           (fst (q False None) @ fst (q True None),
            bind_err (bind_err (snd (q True None)) (combine_pass cov_norm))
              (\<lambda>ctrl. inplace2 fdiv loop ctrl))
         else
           (case expected of
              Some table \<Rightarrow>
                (fst (q False None) @ fst (q False (Some table)),
                 bind_err (bind_err (snd (q False (Some table))) (combine_pass False))
                   (\<lambda>exp. inplace2 fdiv loop exp))
            | None \<Rightarrow> (fst (q False None), Inr loop)))" for q
    unfolding pileupsWithControl_over_def bind_err_assoc
    by (simp add: case_prod_beta split: sum.split option.split)
  show "pileupsWithControl_over pmap' cov_norm nshifts expected =
    pileupsWithControl_over pmap cov_norm nshifts expected"
    unfolding over t r ..
qed


theorem cov_end_never_used_witness:
  "pileupsWithControl_over
     (same_results [(\<lparr>nrows = 1, ncols = 1, cells = [[Fin 6]]\<rparr>, 2, [Fin 3], [Fin 5])])
     True 1 None =
   pileupsWithControl_over
     (same_results [(\<lparr>nrows = 1, ncols = 1, cells = [[Fin 6]]\<rparr>, 2, [Fin 3], [NaN])])
     True 1 None"
proof -
  have h: "\<forall>ctrl e.
      fst (same_results [(\<lparr>nrows = 1, ncols = 1, cells = [[Fin 6]]\<rparr>, 2, [Fin 3], [Fin 5])] ctrl e) =
      fst (same_results [(\<lparr>nrows = 1, ncols = 1, cells = [[Fin 6]]\<rparr>, 2, [Fin 3], [NaN])] ctrl e) \<and>
      map_sum id (map without_cov_end)
        (snd (same_results [(\<lparr>nrows = 1, ncols = 1, cells = [[Fin 6]]\<rparr>, 2, [Fin 3], [Fin 5])] ctrl e)) =
      map_sum id (map without_cov_end)
        (snd (same_results [(\<lparr>nrows = 1, ncols = 1, cells = [[Fin 6]]\<rparr>, 2, [Fin 3], [NaN])] ctrl e))"
    by (simp add: same_results_def without_cov_end_def)
  from cov_end_never_used[where
      pmap' = "same_results [(\<lparr>nrows = 1, ncols = 1, cells = [[Fin 6]]\<rparr>, 2, [Fin 3], [Fin 5])]"
      and pmap = "same_results [(\<lparr>nrows = 1, ncols = 1, cells = [[Fin 6]]\<rparr>, 2, [Fin 3], [NaN])]"
      and cov_norm = True and nshifts = 1 and expected = None and rs = "[]"]
  have "(\<forall>ctrl e.
      fst (same_results [(\<lparr>nrows = 1, ncols = 1, cells = [[Fin 6]]\<rparr>, 2, [Fin 3], [Fin 5])] ctrl e) =
      fst (same_results [(\<lparr>nrows = 1, ncols = 1, cells = [[Fin 6]]\<rparr>, 2, [Fin 3], [NaN])] ctrl e) \<and>
      map_sum id (map without_cov_end)
        (snd (same_results [(\<lparr>nrows = 1, ncols = 1, cells = [[Fin 6]]\<rparr>, 2, [Fin 3], [Fin 5])] ctrl e)) =
      map_sum id (map without_cov_end)
        (snd (same_results [(\<lparr>nrows = 1, ncols = 1, cells = [[Fin 6]]\<rparr>, 2, [Fin 3], [NaN])] ctrl e))) \<longrightarrow>
    pileupsWithControl_over
     (same_results [(\<lparr>nrows = 1, ncols = 1, cells = [[Fin 6]]\<rparr>, 2, [Fin 3], [Fin 5])])
     True 1 None =
    pileupsWithControl_over
     (same_results [(\<lparr>nrows = 1, ncols = 1, cells = [[Fin 6]]\<rparr>, 2, [Fin 3], [NaN])])
     True 1 None"
    by (rule conjunct2)
  with h show ?thesis by (rule rev_mp)
qed

subsection \<open>A run on the toy store\<close>

text \<open>
  Two loci 20 bins apart on one chromosome, pad 1, one shift per window: the observed and
  the control pass fetch the matrix once each, and the enrichment map is all ones.
\<close>

lemma toy_run:
  "pileupsWithControl toy_env True (Loci toy_loci) toy_cooler 1 [''chr1''] False 100000 1000000 1
     None True None False False False 1 41 (\<lambda>ctrl chrom k. (100, 1 / 4)) =
   ([Fetch ''chr1'' True, Fetch ''chr1'' True],
    Inr \<lparr>nrows = 3, ncols = 3,
         cells = [[Fin 1, Fin 1, Fin 1], [Fin 1, Fin 1, Fin 1], [Fin 1, Fin 1, Fin 1]]\<rparr>)"
  by code_simp

end
